theory Spec2Isabelle
  imports Main "HOL-Library.Word"
begin

section \<open>JavaScript values\<close>

text \<open>
  The edge functions of \<^verbatim>\<open>supabase/functions\<close> handle loosely typed JSON. A value is one of
  the shapes \<^verbatim>\<open>JSON.parse\<close> produces, or \<^verbatim>\<open>undefined\<close> (what reading a missing property
  gives). Numbers are the integers (meeting ids, durations, unix times); strings are byte
  strings, so \<^verbatim>\<open>TextEncoder.encode\<close> is the identity.
\<close>

datatype jsv = JUndefined | JNull | JBool bool | JNum int | JStr string
  | JArr "jsv list" | JObj "(string \<times> jsv) list"

text \<open>What a handler throws. \<^verbatim>\<open>Error msg\<close> is \<^verbatim>\<open>new Error(msg)\<close>; the others are raised by
  the runtime (reading a property of \<^verbatim>\<open>undefined\<close>, \<^verbatim>\<open>JSON.parse\<close>, WebCrypto, \<^verbatim>\<open>Date\<close>).\<close>

datatype exn = Error string | TypeError | SyntaxError | DataError | RangeError

definition nullish :: "jsv \<Rightarrow> bool" where
  "nullish v = (v = JUndefined \<or> v = JNull)"

text \<open>\<^verbatim>\<open>x.k\<close> for a value that is not nullish: the member of an object, \<^verbatim>\<open>undefined\<close> otherwise
  (none of the property names the handlers read is a built-in of strings, numbers or arrays).\<close>

fun get :: "jsv \<Rightarrow> string \<Rightarrow> jsv" where
  "get (JObj kvs) k = (case map_of kvs k of None \<Rightarrow> JUndefined | Some v \<Rightarrow> v)"
| "get _ k = JUndefined"

text \<open>\<^verbatim>\<open>x.k\<close> in general: reading a property of \<^verbatim>\<open>undefined\<close> or \<^verbatim>\<open>null\<close> throws a TypeError.\<close>

definition readProp :: "jsv \<Rightarrow> string \<Rightarrow> exn + jsv" where
  "readProp x k = (if nullish x then Inl TypeError else Inr (get x k))"

definition digitChar :: "nat \<Rightarrow> char" where
  "digitChar n = ''0123456789abcdef'' ! n"

text \<open>\<^verbatim>\<open>n.toString(radix)\<close> for a natural number, radix 10 or 16.\<close>

fun natToString :: "nat \<Rightarrow> nat \<Rightarrow> string" where
  "natToString radix n =
     (if radix < 2 \<or> n < radix then [digitChar n]
      else natToString radix (n div radix) @ [digitChar (n mod radix)])"

declare natToString.simps [simp del]

definition numToString :: "int \<Rightarrow> string" where
  "numToString i = (if i < 0 then CHR ''-'' # natToString 10 (nat (- i)) else natToString 10 (nat i))"

fun joinWith :: "string \<Rightarrow> string list \<Rightarrow> string" where
  "joinWith sep [] = []"
| "joinWith sep [x] = x"
| "joinWith sep (x # y # ys) = x @ sep @ joinWith sep (y # ys)"

text \<open>\<^verbatim>\<open>String(v)\<close>, which is also \<^verbatim>\<open>`${v}`\<close>; an array joins its elements with commas, a
  nullish element giving the empty string.\<close>

fun js_String :: "jsv \<Rightarrow> string" where
  "js_String JUndefined = ''undefined''"
| "js_String JNull = ''null''"
| "js_String (JBool b) = (if b then ''true'' else ''false'')"
| "js_String (JNum n) = numToString n"
| "js_String (JStr s) = s"
| "js_String (JArr xs) =
     joinWith '','' (map (\<lambda>x. if x = JUndefined \<or> x = JNull then [] else js_String x) xs)"
| "js_String (JObj kvs) = ''[object Object]''"

text \<open>\<^verbatim>\<open>v.toString()\<close>: a method call, so it throws on \<^verbatim>\<open>undefined\<close> and \<^verbatim>\<open>null\<close>.\<close>

definition toString :: "jsv \<Rightarrow> exn + string" where
  "toString v = (if nullish v then Inl TypeError else Inr (js_String v))"

text \<open>\<^verbatim>\<open>v?.toString()\<close>: optional chaining gives \<^verbatim>\<open>undefined\<close> instead of throwing.\<close>

definition optToString :: "jsv \<Rightarrow> jsv" where
  "optToString v = (if nullish v then JUndefined else JStr (js_String v))"

text \<open>\<^verbatim>\<open>JSON.stringify\<close> of an object literal leaves out the members whose value is
  \<^verbatim>\<open>undefined\<close>.\<close>

definition dropUndefined :: "(string \<times> jsv) list \<Rightarrow> (string \<times> jsv) list" where
  "dropUndefined kvs = filter (\<lambda>kv. snd kv \<noteq> JUndefined) kvs"

subsection \<open>parseInt\<close>

text \<open>The white space and line terminators that \<^verbatim>\<open>parseInt\<close> skips, among the characters a
  header value can hold (code points up to \<open>0xFF\<close>): tab, line feed, vertical tab, form feed,
  carriage return, space and the no-break space \<open>0xA0\<close>.\<close>

definition isWhiteSpace :: "char \<Rightarrow> bool" where
  "isWhiteSpace c = (c \<in> set [CHR 0x09, CHR 0x0A, CHR 0x0B, CHR 0x0C, CHR 0x0D, CHR '' '', CHR 0xA0])"

definition digitVal :: "nat \<Rightarrow> char \<Rightarrow> nat option" where
  "digitVal radix c =
     (let n = of_char c :: nat;
          v = (if 48 \<le> n \<and> n \<le> 57 then Some (n - 48)
               else if 97 \<le> n \<and> n \<le> 122 then Some (n - 87)
               else if 65 \<le> n \<and> n \<le> 90 then Some (n - 55)
               else None)
      in case v of None \<Rightarrow> None | Some d \<Rightarrow> if d < radix then Some d else None)"

definition digitsValue :: "nat \<Rightarrow> string \<Rightarrow> int" where
  "digitsValue radix ds =
     foldl (\<lambda>a c. a * int radix + (case digitVal radix c of None \<Rightarrow> 0 | Some d \<Rightarrow> int d)) 0 ds"

text \<open>\<^verbatim>\<open>parseInt(s)\<close> with no radix: leading white space is skipped, then an optional sign, then
  \<^verbatim>\<open>0x\<close> selects radix 16, then the longest run of digits is read; \<^verbatim>\<open>None\<close> is \<^verbatim>\<open>NaN\<close>.\<close>

definition parseInt :: "string \<Rightarrow> int option" where
  "parseInt s =
     (let s1 = dropWhile isWhiteSpace s;
          neg = (take 1 s1 = ''-'');
          s2 = (if take 1 s1 = ''-'' \<or> take 1 s1 = ''+'' then drop 1 s1 else s1);
          hex = (take 2 s2 = ''0x'' \<or> take 2 s2 = ''0X'');
          radix = (if hex then 16 else 10);
          s3 = (if hex then drop 2 s2 else s2);
          ds = takeWhile (\<lambda>c. digitVal radix c \<noteq> None) s3
      in if ds = [] then None
         else Some ((if neg then - 1 else 1) * digitsValue radix ds))"

section \<open>Requests, responses, environment\<close>

record request =
  req_method :: string
  req_headers :: "string \<Rightarrow> string option"
  req_text :: string

datatype resp_body = Text string | Json "(string \<times> jsv) list"

record response =
  status :: nat
  content :: resp_body

text \<open>\<^verbatim>\<open>new Response(JSON.stringify(obj), {status})\<close>.\<close>

definition jsonResponse :: "nat \<Rightarrow> (string \<times> jsv) list \<Rightarrow> response" where
  "jsonResponse st obj = \<lparr>status = st, content = Json (dropUndefined obj)\<rparr>"

text \<open>
  An outbound \<^verbatim>\<open>fetch\<close>: it rejects (the network), or resolves to a response that is not
  \<^verbatim>\<open>ok\<close> (with its text), or to an \<^verbatim>\<open>ok\<close> response whose JSON has the shape the caller reads.
\<close>

datatype 'a fetched = Rejected | NotOk string | Ok 'a

text \<open>The token endpoint's JSON; \<^verbatim>\<open>expires_in\<close> is \<^verbatim>\<open>None\<close> when it is not a number.\<close>

record token_json =
  new_access_token :: jsv
  new_refresh_token :: jsv
  expires_in :: "int option"

text \<open>A page of \<^verbatim>\<open>/v2/users\<close>: \<^verbatim>\<open>users\<close> is \<^verbatim>\<open>None\<close> when the member is missing, and
  \<^verbatim>\<open>next_page_token\<close> is the empty string when it is missing or empty.\<close>

record users_page =
  users :: "jsv list option"
  next_page_token :: string

text \<open>
  What an invocation reads from outside the repository: the secrets of \<^verbatim>\<open>Deno.env\<close>, the
  clock (\<^verbatim>\<open>Date.now()\<close>, in milliseconds, one reading per invocation), HMAC-SHA256 of
  WebCrypto (key bytes, message bytes, digest bytes), \<^verbatim>\<open>JSON.parse\<close> (\<^verbatim>\<open>None\<close> when it
  throws a SyntaxError), the provider's endpoints (the token endpoint by refresh token, the
  user list by its fixed query, access token and page cursor, a user's meetings by access
  token and user id), and whether the store call at a given position of the trace fails.
\<close>

record env =
  ZOOM_WEBHOOK_SECRET_TOKEN :: "string option"
  CRON_SECRET :: "string option"
  Date_now :: int
  hmacSha256 :: "string \<Rightarrow> string \<Rightarrow> 8 word list"
  JSON_parse :: "string \<Rightarrow> jsv option"
  zoom_oauth_token :: "jsv \<Rightarrow> token_json fetched"
  zoom_api_users :: "string \<Rightarrow> string \<Rightarrow> string \<Rightarrow> users_page fetched"
  zoom_api_meetings :: "string \<Rightarrow> string \<Rightarrow> jsv list option fetched"
  store_fails :: "nat \<Rightarrow> bool"

section \<open>zoom-webhook: verifyZoomSignature\<close>

text \<open>\<^verbatim>\<open>hashArray.map(b => b.toString(16).padStart(2, '0')).join('')\<close>\<close>

definition padStart2 :: "string \<Rightarrow> string" where
  "padStart2 s = replicate (2 - length s) CHR ''0'' @ s"

definition toHex :: "8 word list \<Rightarrow> string" where
  "toHex hashArray = concat (map (\<lambda>b. padStart2 (natToString 16 (unat b))) hashArray)"

text \<open>\<^verbatim>\<open>crypto.subtle.importKey('raw', encoder.encode(secretToken), HMAC ...)\<close>: an unset secret
  encodes to no bytes, and WebCrypto refuses a key of length zero with a DataError.\<close>

definition importKey :: "string option \<Rightarrow> exn + string" where
  "importKey secretToken =
     (let raw = (case secretToken of None \<Rightarrow> [] | Some s \<Rightarrow> s)
      in if raw = [] then Inl DataError else Inr raw)"

text \<open>\<^verbatim>\<open>!s\<close> for a string that may be missing (a header read with \<^verbatim>\<open>headers.get\<close>, a variable
  read with \<^verbatim>\<open>Deno.env.get\<close>): the missing one and the empty one are both falsy.\<close>

definition falsy :: "string option \<Rightarrow> bool" where
  "falsy h = (case h of None \<Rightarrow> True | Some s \<Rightarrow> s = [])"

text \<open>\<^verbatim>\<open>Math.abs(now - parseInt(timestamp)) > 300\<close>; a comparison with \<^verbatim>\<open>NaN\<close> is false. The
  integers here are exact. The numbers of the code are doubles, which round an integer only
  beyond \<open>2^53\<close>; the clock of a \<^verbatim>\<open>Date\<close> stays below \<open>8.64 * 10^15\<close> ms, so a timestamp
  that large is more than 300 s away from it with or without the rounding.\<close>

definition tooOld :: "env \<Rightarrow> string \<Rightarrow> bool" where
  "tooOld e timestamp =
     (let now = Date_now e div 1000
      in case parseInt timestamp of None \<Rightarrow> False | Some t \<Rightarrow> abs (now - t) > 300)"

definition signedMessage :: "string \<Rightarrow> string \<Rightarrow> string" where
  "signedMessage timestamp rawBody = ''v0:'' @ timestamp @ '':'' @ rawBody"

definition verifyZoomSignature :: "env \<Rightarrow> request \<Rightarrow> string \<Rightarrow> exn + bool" where
  "verifyZoomSignature e req rawBody =
     (let signature = req_headers req ''x-zm-signature'';
          timestamp = req_headers req ''x-zm-request-timestamp''
      in if falsy signature \<or> falsy timestamp then Inr False
         else case (signature, timestamp) of
           (Some sg, Some ts) \<Rightarrow>
             if tooOld e ts then Inr False
             else (case importKey (ZOOM_WEBHOOK_SECRET_TOKEN e) of
                     Inl err \<Rightarrow> Inl err
                   | Inr key \<Rightarrow>
                       let computedSignature = ''v0='' @ toHex (hmacSha256 e key (signedMessage ts rawBody))
                       in Inr (sg = computedSignature))
         | _ \<Rightarrow> Inr False)"

section \<open>The store\<close>

text \<open>
  The tables of \<^verbatim>\<open>schema.sql\<close> that the edge functions touch. A row maps a column name to its
  value, \<^verbatim>\<open>NULL\<close> being \<^const>\<open>JNull\<close>; \<^verbatim>\<open>zoom_users\<close> is keyed by \<^verbatim>\<open>id\<close>, \<^verbatim>\<open>zoom_meetings\<close> by its
  unique \<^verbatim>\<open>meeting_id\<close>, both kept in insertion order; \<^verbatim>\<open>zoom_events\<close> is an append-only log;
  \<^verbatim>\<open>zoom_tokens\<close> holds at most the row with \<^verbatim>\<open>id = 1\<close>. Timestamps are kept as clock readings
  in milliseconds instead of their ISO-8601 rendering; serial ids and column defaults of
  the schema are left out.

  \<^verbatim>\<open>calls\<close> is the trace of what an invocation did to the outside: store calls, requests to
  the provider, \<^verbatim>\<open>console.error\<close> lines.
\<close>

type_synonym row = "string \<Rightarrow> jsv"
type_synonym table = "(string \<times> row) list"

datatype call = StoreCall string string | HttpCall string | ConsoleError string

record token_row =
  access_token :: jsv
  refresh_token :: jsv
  expires_at :: int

record world =
  zoom_tokens :: "token_row option"
  zoom_users :: table
  zoom_meetings :: table
  zoom_events :: "row list"
  calls :: "call list"

text \<open>
  A store call of supabase-js does not throw: it resolves to \<^verbatim>\<open>{data, error}\<close>. Whether a call
  fails (a constraint of the schema, the network) is decided from outside by \<^const>\<open>store_fails\<close>,
  asked at the position of the call in the trace; a failed call changes no table.
\<close>

definition logCall :: "call \<Rightarrow> world \<Rightarrow> world" where
  "logCall c w = w\<lparr>calls := calls w @ [c]\<rparr>"

definition consoleError :: "string \<Rightarrow> world \<Rightarrow> world" where
  "consoleError msg w = logCall (ConsoleError msg) w"

definition failsNow :: "env \<Rightarrow> world \<Rightarrow> bool" where
  "failsNow e w = store_fails e (length (calls w))"

text \<open>The row a call writes: \<^verbatim>\<open>JSON.stringify\<close> has dropped the \<^verbatim>\<open>undefined\<close> members of the
  object, a new row has \<^verbatim>\<open>NULL\<close> in the columns not given, an existing row keeps them.\<close>

definition newRow :: "(string \<times> jsv) list \<Rightarrow> row" where
  "newRow obj = (\<lambda>c. case map_of (dropUndefined obj) c of None \<Rightarrow> JNull | Some v \<Rightarrow> v)"

definition mergeRow :: "row \<Rightarrow> (string \<times> jsv) list \<Rightarrow> row" where
  "mergeRow old obj = (\<lambda>c. case map_of (dropUndefined obj) c of None \<Rightarrow> old c | Some v \<Rightarrow> v)"

text \<open>The text a key column holds for the value sent; a row cannot be stored under a key
  that is missing, and ids are strings or numbers.\<close>

definition keyOf :: "jsv \<Rightarrow> string option" where
  "keyOf v = (case v of JStr s \<Rightarrow> Some s | JNum n \<Rightarrow> Some (numToString n) | _ \<Rightarrow> None)"

text \<open>\<^verbatim>\<open>INSERT ... ON CONFLICT (key) DO UPDATE\<close> on one object.\<close>

fun upsertRows :: "string \<Rightarrow> string \<Rightarrow> (string \<times> jsv) list \<Rightarrow> table \<Rightarrow> table" where
  "upsertRows keycol k obj [] = [(k, (newRow obj)(keycol := JStr k))]"
| "upsertRows keycol k obj ((k', r) # rest) =
     (if k' = k then (k', (mergeRow r obj)(keycol := JStr k)) # rest
      else (k', r) # upsertRows keycol k obj rest)"

definition deleteRows :: "string \<Rightarrow> table \<Rightarrow> table" where
  "deleteRows k t = filter (\<lambda>kr. fst kr \<noteq> k) t"

text \<open>\<^verbatim>\<open>host_id TEXT REFERENCES zoom_users(id) ON DELETE SET NULL\<close>\<close>

definition hostSetNull :: "string \<Rightarrow> table \<Rightarrow> table" where
  "hostSetNull uid t =
     map (\<lambda>kr. (fst kr, if snd kr ''host_id'' = JStr uid then (snd kr)(''host_id'' := JNull) else snd kr)) t"

text \<open>Each store call returns its \<^verbatim>\<open>error\<close> (as a flag) and the world after it.\<close>

definition insertEvent :: "env \<Rightarrow> (string \<times> jsv) list \<Rightarrow> world \<Rightarrow> bool \<times> world" where
  "insertEvent e obj w =
     (let w1 = logCall (StoreCall ''zoom_events'' ''insert'') w
      in if failsNow e w then (True, w1)
         else (False, w1\<lparr>zoom_events := zoom_events w1 @ [newRow obj]\<rparr>))"

definition upsertMeeting :: "env \<Rightarrow> (string \<times> jsv) list \<Rightarrow> world \<Rightarrow> bool \<times> world" where
  "upsertMeeting e obj w =
     (let w1 = logCall (StoreCall ''zoom_meetings'' ''upsert'') w
      in if failsNow e w then (True, w1)
         else case keyOf (get (JObj obj) ''meeting_id'') of
                None \<Rightarrow> (True, w1)
              | Some k \<Rightarrow> (False, w1\<lparr>zoom_meetings := upsertRows ''meeting_id'' k obj (zoom_meetings w1)\<rparr>))"

definition deleteMeeting :: "env \<Rightarrow> string \<Rightarrow> world \<Rightarrow> bool \<times> world" where
  "deleteMeeting e k w =
     (let w1 = logCall (StoreCall ''zoom_meetings'' ''delete'') w
      in if failsNow e w then (True, w1)
         else (False, w1\<lparr>zoom_meetings := deleteRows k (zoom_meetings w1)\<rparr>))"

definition upsertUser :: "env \<Rightarrow> (string \<times> jsv) list \<Rightarrow> world \<Rightarrow> bool \<times> world" where
  "upsertUser e obj w =
     (let w1 = logCall (StoreCall ''zoom_users'' ''upsert'') w
      in if failsNow e w then (True, w1)
         else case keyOf (get (JObj obj) ''id'') of
                None \<Rightarrow> (True, w1)
              | Some k \<Rightarrow> (False, w1\<lparr>zoom_users := upsertRows ''id'' k obj (zoom_users w1)\<rparr>))"

definition deleteUser :: "env \<Rightarrow> string \<Rightarrow> world \<Rightarrow> bool \<times> world" where
  "deleteUser e k w =
     (let w1 = logCall (StoreCall ''zoom_users'' ''delete'') w
      in if failsNow e w then (True, w1)
         else (False, w1\<lparr>zoom_users := deleteRows k (zoom_users w1),
                         zoom_meetings := hostSetNull k (zoom_meetings w1)\<rparr>))"

section \<open>zoom-webhook: the handler\<close>

definition relevantEvents :: "string list" where
  "relevantEvents = [''meeting.started'', ''meeting.ended'', ''meeting.created'',
     ''meeting.updated'', ''meeting.deleted'']"

definition success :: response where
  "success = jsonResponse 200 [(''success'', JBool True)]"

text \<open>\<^verbatim>\<open>encoder.encode(v)\<close>: the argument defaults to the empty string when \<^verbatim>\<open>undefined\<close>.\<close>

definition encode :: "jsv \<Rightarrow> string" where
  "encode v = (if v = JUndefined then [] else js_String v)"

text \<open>The branch \<^verbatim>\<open>body.event === 'endpoint.url_validation'\<close>.\<close>

definition urlValidation :: "env \<Rightarrow> jsv \<Rightarrow> exn + response" where
  "urlValidation e body =
     (case readProp (get body ''payload'') ''plainToken'' of
        Inl err \<Rightarrow> Inl err
      | Inr plainToken \<Rightarrow>
          (case ZOOM_WEBHOOK_SECRET_TOKEN e of
             None \<Rightarrow> Inr (jsonResponse 500 [(''error'', JStr ''Configuration error'')])
           | Some secretToken \<Rightarrow>
               if secretToken = [] then Inr (jsonResponse 500 [(''error'', JStr ''Configuration error'')])
               else let encryptedToken = toHex (hmacSha256 e secretToken (encode plainToken))
                    in Inr (jsonResponse 200
                         [(''plainToken'', plainToken), (''encryptedToken'', JStr encryptedToken)])))"

text \<open>The branch \<^verbatim>\<open>relevantEvents.includes(body.event)\<close>: the log first, then the table.\<close>

definition meetingData :: "jsv \<Rightarrow> jsv \<Rightarrow> jsv \<Rightarrow> (string \<times> jsv) list" where
  "meetingData body event m =
     [(''event_type'', event),
      (''meeting_id'', optToString (get m ''id'')),
      (''meeting_uuid'', get m ''uuid''),
      (''host_id'', get m ''host_id''),
      (''topic'', get m ''topic''),
      (''start_time'', get m ''start_time''),
      (''end_time'', get m ''end_time''),
      (''timezone'', get m ''timezone''),
      (''duration'', get m ''duration''),
      (''event_timestamp'', get body ''event_ts''),
      (''raw_data'', body)]"

definition syncData :: "env \<Rightarrow> string \<Rightarrow> jsv \<Rightarrow> (string \<times> jsv) list" where
  "syncData e mid m =
     [(''meeting_id'', JStr mid),
      (''uuid'', get m ''uuid''),
      (''host_id'', get m ''host_id''),
      (''topic'', get m ''topic''),
      (''type'', get m ''type''),
      (''duration'', get m ''duration''),
      (''timezone'', get m ''timezone''),
      (''join_url'', get m ''join_url''),
      (''updated_at'', JNum (Date_now e))]"

text \<open>Step 2 of the branch: \<^verbatim>\<open>zoom_meetings\<close> follows the event.\<close>

definition syncMeeting :: "env \<Rightarrow> jsv \<Rightarrow> jsv \<Rightarrow> world \<Rightarrow> (exn + response) \<times> world" where
  "syncMeeting e event m w =
     (case toString (get m ''id'') of
        Inl err \<Rightarrow> (Inl err, w)
      | Inr mid \<Rightarrow>
          if event = JStr ''meeting.deleted'' then
            (case deleteMeeting e mid w of
               (delError, w1) \<Rightarrow>
                 (Inr success, if delError then consoleError ''Error eliminando meeting sync:'' w1 else w1))
          else
            (case upsertMeeting e (syncData e mid m) w of
               (syncError, w1) \<Rightarrow>
                 (Inr success, if syncError then consoleError ''Error sincronizando meeting:'' w1 else w1)))"

definition meetingEvent :: "env \<Rightarrow> jsv \<Rightarrow> jsv \<Rightarrow> world \<Rightarrow> (exn + response) \<times> world" where
  "meetingEvent e body event w =
     (case readProp (get body ''payload'') ''object'' of
        Inl err \<Rightarrow> (Inl err, w)
      | Inr m \<Rightarrow>
          if nullish m then (Inl TypeError, w)
          else (case insertEvent e (meetingData body event m) w of
                  (logError, w1) \<Rightarrow>
                    syncMeeting e event m
                      (if logError then consoleError ''Error guardando log:'' w1 else w1)))"

text \<open>The branch \<^verbatim>\<open>body.event.startsWith('user.')\<close>: no row goes to \<^verbatim>\<open>zoom_events\<close> here.\<close>

definition userData :: "env \<Rightarrow> jsv \<Rightarrow> (string \<times> jsv) list" where
  "userData e u =
     [(''id'', get u ''id''),
      (''first_name'', get u ''first_name''),
      (''last_name'', get u ''last_name''),
      (''display_name'', get u ''display_name''),
      (''email'', get u ''email''),
      (''type'', get u ''type''),
      (''status'', get u ''status''),
      (''pmi'', get u ''pmi''),
      (''timezone'', get u ''timezone''),
      (''dept'', get u ''dept''),
      (''updated_at'', JNum (Date_now e))]"

text \<open>\<^verbatim>\<open>Object.keys(userData).forEach(key => userData[key] === undefined && delete userData[key])\<close>\<close>

definition deleteUndefinedKeys :: "(string \<times> jsv) list \<Rightarrow> (string \<times> jsv) list" where
  "deleteUndefinedKeys obj = filter (\<lambda>kv. snd kv \<noteq> JUndefined) obj"

definition userEvent :: "env \<Rightarrow> jsv \<Rightarrow> string \<Rightarrow> world \<Rightarrow> (exn + response) \<times> world" where
  "userEvent e body ev w =
     (case readProp (get body ''payload'') ''object'' of
        Inl err \<Rightarrow> (Inl err, w)
      | Inr u \<Rightarrow>
          if nullish u then (Inl TypeError, w)
          else if ev = ''user.deleted'' \<or> ev = ''user.disassociated'' then
            (case deleteUser e (js_String (get u ''id'')) w of
               (error, w1) \<Rightarrow>
                 (Inr success, if error then consoleError ''Error eliminando usuario:'' w1 else w1))
          else
            (case upsertUser e (deleteUndefinedKeys (userData e u)) w of
               (error, w1) \<Rightarrow>
                 (Inr success, if error then consoleError ''Error actualizando usuario:'' w1 else w1)))"

definition startsWith :: "string \<Rightarrow> string \<Rightarrow> bool" where
  "startsWith s p = (take (length p) s = p)"

text \<open>The \<^verbatim>\<open>try\<close> block of the handler; \<^verbatim>\<open>Inl\<close> is what it throws.\<close>

definition webhookTry :: "env \<Rightarrow> request \<Rightarrow> world \<Rightarrow> (exn + response) \<times> world" where
  "webhookTry e req w =
     (let rawBody = req_text req
      in case JSON_parse e rawBody of
           None \<Rightarrow> (Inl SyntaxError, w)
         | Some body \<Rightarrow>
             (case readProp body ''event'' of
                Inl err \<Rightarrow> (Inl err, w)
              | Inr event \<Rightarrow>
                  if event = JStr ''endpoint.url_validation'' then (urlValidation e body, w)
                  else (case verifyZoomSignature e req rawBody of
                          Inl err \<Rightarrow> (Inl err, w)
                        | Inr isValid \<Rightarrow>
                            if \<not> isValid then
                              (Inr \<lparr>status = 401, content = Text ''Unauthorized''\<rparr>,
                               consoleError ''Firma invalida o timestamp expirado'' w)
                            else if event \<in> set (map JStr relevantEvents) then
                              meetingEvent e body event w
                            else (case event of
                                    JStr ev \<Rightarrow>
                                      if startsWith ev ''user.'' then userEvent e body ev w
                                      else (Inr (jsonResponse 200 [(''message'', JStr ''Event received'')]), w)
                                  | _ \<Rightarrow> (Inl TypeError, w)))))"

definition zoomWebhook :: "env \<Rightarrow> request \<Rightarrow> world \<Rightarrow> response \<times> world" where
  "zoomWebhook e req w =
     (if req_method req = ''OPTIONS'' then (\<lparr>status = 200, content = Text ''ok''\<rparr>, w)
      else case webhookTry e req w of
             (Inr resp, w1) \<Rightarrow> (resp, w1)
           | (Inl err, w1) \<Rightarrow>
               (jsonResponse 500 [(''error'', JStr ''Internal server error'')],
                consoleError ''Error interno:'' w1))"

section \<open>cron-trigger\<close>

subsection \<open>refreshZoomToken\<close>

text \<open>\<^verbatim>\<open>.from('zoom_tokens').select('*').eq('id', 1).single()\<close>: \<^verbatim>\<open>data\<close> is \<^verbatim>\<open>null\<close> when the call
  fails or finds no row.\<close>

definition selectTokens :: "env \<Rightarrow> world \<Rightarrow> token_row option \<times> world" where
  "selectTokens e w =
     (let w1 = logCall (StoreCall ''zoom_tokens'' ''select'') w
      in if failsNow e w then (None, w1) else (zoom_tokens w1, w1))"

text \<open>\<^verbatim>\<open>.from('zoom_tokens').update({...}).eq('id', 1)\<close>: the row, if there is one, takes the
  members that are not \<^verbatim>\<open>undefined\<close>.\<close>

definition updateTokens :: "env \<Rightarrow> token_json \<Rightarrow> int \<Rightarrow> world \<Rightarrow> bool \<times> world" where
  "updateTokens e tj newExpiresAt w =
     (let w1 = logCall (StoreCall ''zoom_tokens'' ''update'') w
      in if failsNow e w then (True, w1)
         else (False, w1\<lparr>zoom_tokens :=
                 map_option (\<lambda>t. \<lparr>access_token = (if new_access_token tj = JUndefined then access_token t
                                                     else new_access_token tj),
                                   refresh_token = (if new_refresh_token tj = JUndefined then refresh_token t
                                                      else new_refresh_token tj),
                                   expires_at = newExpiresAt\<rparr>)
                   (zoom_tokens w1)\<rparr>))"

text \<open>\<^verbatim>\<open>new Date(Date.now() + tokens.expires_in * 1000).toISOString()\<close> throws a RangeError when
  the time value is \<^verbatim>\<open>NaN\<close> or out of the range of \<^verbatim>\<open>Date\<close>.\<close>

definition newExpiry :: "env \<Rightarrow> token_json \<Rightarrow> exn + int" where
  "newExpiry e tj =
     (case expires_in tj of
        None \<Rightarrow> Inl RangeError
      | Some s \<Rightarrow>
          let t = Date_now e + s * 1000
          in if abs t \<le> 8640000000000000 then Inr t else Inl RangeError)"

definition tokenEndpoint :: call where
  "tokenEndpoint = HttpCall ''POST https://zoom.us/oauth/token''"

definition refreshZoomToken :: "env \<Rightarrow> world \<Rightarrow> (exn + jsv) \<times> world" where
  "refreshZoomToken e w =
     (case selectTokens e w of
        (None, w1) \<Rightarrow> (Inl (Error ''No Zoom tokens found''), w1)
      | (Some tokenData, w1) \<Rightarrow>
          let fiveMinutes = 5 * 60 * 1000
          in if expires_at tokenData - Date_now e > fiveMinutes then (Inr (access_token tokenData), w1)
             else let w2 = logCall tokenEndpoint w1
                  in case zoom_oauth_token e (refresh_token tokenData) of
                       Rejected \<Rightarrow> (Inl TypeError, w2)
                     | NotOk text \<Rightarrow> (Inl (Error (''Failed to refresh token: '' @ text)), w2)
                     | Ok newTokens \<Rightarrow>
                         (case newExpiry e newTokens of
                            Inl err \<Rightarrow> (Inl err, w2)
                          | Inr newExpiresAt \<Rightarrow>
                              (case updateTokens e newTokens newExpiresAt w2 of
                                 (updateError, w3) \<Rightarrow> (Inr (new_access_token newTokens), w3))))"

subsection \<open>syncZoomUsers\<close>

definition syncUserRow :: "env \<Rightarrow> jsv \<Rightarrow> (string \<times> jsv) list" where
  "syncUserRow e user =
     [(''id'', get user ''id''),
      (''email'', get user ''email''),
      (''first_name'', get user ''first_name''),
      (''last_name'', get user ''last_name''),
      (''display_name'', get user ''display_name''),
      (''type'', get user ''type''),
      (''status'', get user ''status''),
      (''pmi'', get user ''pmi''),
      (''timezone'', get user ''timezone''),
      (''dept'', get user ''dept''),
      (''created_at'', get user ''created_at''),
      (''last_login_time'', get user ''last_login_time''),
      (''updated_at'', JNum (Date_now e))]"

text \<open>\<^verbatim>\<open>for (const user of data.users || [])\<close>: one upsert per user, its result not looked at;
  a \<^verbatim>\<open>null\<close> element throws at \<^verbatim>\<open>user.id\<close>.\<close>

fun upsertUsersLoop :: "env \<Rightarrow> jsv list \<Rightarrow> nat \<Rightarrow> world \<Rightarrow> (exn + nat) \<times> world" where
  "upsertUsersLoop e [] totalSynced w = (Inr totalSynced, w)"
| "upsertUsersLoop e (user # rest) totalSynced w =
     (if nullish user then (Inl TypeError, w)
      else upsertUsersLoop e rest (totalSynced + 1) (snd (upsertUser e (syncUserRow e user) w)))"

definition usersEndpoint :: "string \<Rightarrow> string \<Rightarrow> call" where
  "usersEndpoint query nextPageToken =
     HttpCall (''GET https://api.zoom.us/v2/users?'' @ query @ ''&next_page_token='' @ nextPageToken)"

text \<open>One pass of the \<^verbatim>\<open>do ... while (nextPageToken)\<close> body: \<^verbatim>\<open>Inl\<close> when the pass throws,
  otherwise the new \<^verbatim>\<open>nextPageToken\<close> and \<^verbatim>\<open>totalSynced\<close>.\<close>

definition syncUsersPage :: "env \<Rightarrow> string \<Rightarrow> string \<Rightarrow> nat \<Rightarrow> world \<Rightarrow> (exn + string \<times> nat) \<times> world" where
  "syncUsersPage e accessToken nextPageToken totalSynced w =
     (let w1 = logCall (usersEndpoint ''page_size=300'' nextPageToken) w
      in case zoom_api_users e ''page_size=300'' accessToken nextPageToken of
           Rejected \<Rightarrow> (Inl TypeError, w1)
         | NotOk text \<Rightarrow> (Inl (Error (''Zoom API error: '' @ text)), w1)
         | Ok data \<Rightarrow>
             (case upsertUsersLoop e (case users data of None \<Rightarrow> [] | Some us \<Rightarrow> us) totalSynced w1 of
                (Inl err, w2) \<Rightarrow> (Inl err, w2)
              | (Inr n, w2) \<Rightarrow> (Inr (next_page_token data, n), w2)))"

text \<open>The loop; it returns nothing (\<^const>\<open>None\<close>) when the provider's cursors never end.\<close>

partial_function (option) syncUsersLoop ::
    "env \<Rightarrow> string \<Rightarrow> string \<Rightarrow> nat \<Rightarrow> world \<Rightarrow> ((exn + nat) \<times> world) option" where
  "syncUsersLoop e accessToken nextPageToken totalSynced w =
     (case syncUsersPage e accessToken nextPageToken totalSynced w of
        (Inl err, w1) \<Rightarrow> Some (Inl err, w1)
      | (Inr (next, n), w1) \<Rightarrow>
          if next \<noteq> [] then syncUsersLoop e accessToken next n w1 else Some (Inr n, w1))"

definition syncZoomUsers :: "env \<Rightarrow> string \<Rightarrow> world \<Rightarrow> ((exn + nat) \<times> world) option" where
  "syncZoomUsers e accessToken w = syncUsersLoop e accessToken [] 0 w"

subsection \<open>syncZoomMeetings\<close>

text \<open>\<^verbatim>\<open>.from('zoom_users').select('id').eq('status', 'active')\<close>\<close>

definition selectActiveUsers :: "env \<Rightarrow> world \<Rightarrow> string list \<times> world" where
  "selectActiveUsers e w =
     (let w1 = logCall (StoreCall ''zoom_users'' ''select'') w
      in if failsNow e w then ([], w1)
         else (map fst (filter (\<lambda>kr. snd kr ''status'' = JStr ''active'') (zoom_users w1)), w1))"

definition syncMeetingRow :: "env \<Rightarrow> jsv \<Rightarrow> (string \<times> jsv) list" where
  "syncMeetingRow e meeting =
     [(''meeting_id'', JStr (js_String (get meeting ''id''))),
      (''uuid'', get meeting ''uuid''),
      (''host_id'', get meeting ''host_id''),
      (''topic'', get meeting ''topic''),
      (''type'', get meeting ''type''),
      (''duration'', get meeting ''duration''),
      (''timezone'', get meeting ''timezone''),
      (''join_url'', get meeting ''join_url''),
      (''created_at'', get meeting ''created_at''),
      (''updated_at'', JNum (Date_now e))]"

text \<open>\<^verbatim>\<open>for (const meeting of data.meetings || [])\<close>; \<^verbatim>\<open>totalSynced\<close> lives outside the \<^verbatim>\<open>try\<close>,
  so it keeps what was counted before a throw.\<close>

fun upsertMeetingsLoop :: "env \<Rightarrow> jsv list \<Rightarrow> nat \<Rightarrow> world \<Rightarrow> exn option \<times> nat \<times> world" where
  "upsertMeetingsLoop e [] totalSynced w = (None, totalSynced, w)"
| "upsertMeetingsLoop e (meeting # rest) totalSynced w =
     (if nullish meeting then (Some TypeError, totalSynced, w)
      else upsertMeetingsLoop e rest (totalSynced + 1) (snd (upsertMeeting e (syncMeetingRow e meeting) w)))"

definition meetingsEndpoint :: "string \<Rightarrow> call" where
  "meetingsEndpoint uid = HttpCall (''GET https://api.zoom.us/v2/users/'' @ uid @ ''/meetings'')"

text \<open>\<^verbatim>\<open>for (const user of users || [])\<close> with its \<^verbatim>\<open>try ... catch\<close>: a user whose listing fails
  is skipped.\<close>

fun syncMeetingsLoop :: "env \<Rightarrow> string \<Rightarrow> string list \<Rightarrow> nat \<Rightarrow> world \<Rightarrow> nat \<times> world" where
  "syncMeetingsLoop e accessToken [] totalSynced w = (totalSynced, w)"
| "syncMeetingsLoop e accessToken (uid # rest) totalSynced w =
     (let w1 = logCall (meetingsEndpoint uid) w
      in case zoom_api_meetings e accessToken uid of
           Rejected \<Rightarrow>
             syncMeetingsLoop e accessToken rest totalSynced
               (consoleError (''Error syncing meetings for user '' @ uid) w1)
         | NotOk text \<Rightarrow> syncMeetingsLoop e accessToken rest totalSynced w1
         | Ok data \<Rightarrow>
             (case upsertMeetingsLoop e (case data of None \<Rightarrow> [] | Some ms \<Rightarrow> ms) totalSynced w1 of
                (None, n, w2) \<Rightarrow> syncMeetingsLoop e accessToken rest n w2
              | (Some err, n, w2) \<Rightarrow>
                  syncMeetingsLoop e accessToken rest n
                    (consoleError (''Error syncing meetings for user '' @ uid) w2)))"

definition syncZoomMeetings :: "env \<Rightarrow> string \<Rightarrow> world \<Rightarrow> nat \<times> world" where
  "syncZoomMeetings e accessToken w =
     (case selectActiveUsers e w of (userIds, w1) \<Rightarrow> syncMeetingsLoop e accessToken userIds 0 w1)"

subsection \<open>The handler\<close>

text \<open>\<^verbatim>\<open>s.replace(pat, rep)\<close> with a string pattern: the first occurrence only.\<close>

fun replaceFirst :: "string \<Rightarrow> string \<Rightarrow> string \<Rightarrow> string" where
  "replaceFirst pat rep [] = (if pat = [] then rep else [])"
| "replaceFirst pat rep (c # cs) =
     (if take (length pat) (c # cs) = pat then rep @ drop (length pat) (c # cs)
      else c # replaceFirst pat rep cs)"

text \<open>\<^verbatim>\<open>error.message || 'Unknown error'\<close>; the runtime's own message texts are shortened to
  the name of the error.\<close>

definition errorMessage :: "exn \<Rightarrow> string" where
  "errorMessage x =
     (case x of Error msg \<Rightarrow> (if msg = [] then ''Unknown error'' else msg)
      | TypeError \<Rightarrow> ''TypeError'' | SyntaxError \<Rightarrow> ''SyntaxError''
      | DataError \<Rightarrow> ''DataError'' | RangeError \<Rightarrow> ''RangeError'')"

definition validActions :: "string list" where
  "validActions = [''sync-users'', ''sync-meetings'', ''sync-all'', ''refresh-token'']"

definition cronSuccess :: "env \<Rightarrow> (string \<times> jsv) list \<Rightarrow> response" where
  "cronSuccess e result =
     jsonResponse 200 ((''success'', JBool True) # result @ [(''timestamp'', JNum (Date_now e))])"

text \<open>The \<^verbatim>\<open>switch (action)\<close>, entered with the access token in hand.\<close>

definition cronSwitch :: "env \<Rightarrow> jsv \<Rightarrow> string \<Rightarrow> world \<Rightarrow> ((exn + response) \<times> world) option" where
  "cronSwitch e action accessToken w =
     (if action = JStr ''sync-users'' then
        (case syncZoomUsers e accessToken w of
           None \<Rightarrow> None
         | Some (Inl err, w1) \<Rightarrow> Some (Inl err, w1)
         | Some (Inr usersCount, w1) \<Rightarrow>
             Some (Inr (cronSuccess e [(''action'', JStr ''sync-users''), (''synced'', JNum (int usersCount))]), w1))
      else if action = JStr ''sync-meetings'' then
        (case syncZoomMeetings e accessToken w of
           (meetingsCount, w1) \<Rightarrow>
             Some (Inr (cronSuccess e [(''action'', JStr ''sync-meetings''), (''synced'', JNum (int meetingsCount))]), w1))
      else if action = JStr ''sync-all'' then
        (case syncZoomUsers e accessToken w of
           None \<Rightarrow> None
         | Some (Inl err, w1) \<Rightarrow> Some (Inl err, w1)
         | Some (Inr usersCount, w1) \<Rightarrow>
             (case syncZoomMeetings e accessToken w1 of
                (meetingsCount, w2) \<Rightarrow>
                  Some (Inr (cronSuccess e [(''action'', JStr ''sync-all''), (''users'', JNum (int usersCount)),
                                            (''meetings'', JNum (int meetingsCount))]), w2)))
      else if action = JStr ''refresh-token'' then
        Some (Inr (cronSuccess e [(''action'', JStr ''refresh-token''),
                                  (''message'', JStr ''Token refreshed successfully'')]), w)
      else
        Some (Inr (jsonResponse 400 [(''error'', JStr ''Unknown action''),
                                     (''valid'', JArr (map JStr validActions))]), w))"

definition cronTry :: "env \<Rightarrow> request \<Rightarrow> world \<Rightarrow> ((exn + response) \<times> world) option" where
  "cronTry e req w =
     (let authHeader = req_headers req ''authorization''
      in if falsy (CRON_SECRET e) then
           Some (Inr (jsonResponse 500 [(''error'', JStr ''CRON_SECRET not configured'')]), w)
         else if map_option (replaceFirst ''Bearer '' []) authHeader \<noteq> CRON_SECRET e then
           Some (Inr (jsonResponse 401 [(''error'', JStr ''Unauthorized'')]), w)
         else
           let body = (case JSON_parse e (req_text req) of None \<Rightarrow> JObj [] | Some b \<Rightarrow> b)
           in case readProp body ''action'' of
                Inl err \<Rightarrow> Some (Inl err, w)
              | Inr action \<Rightarrow>
                  (case refreshZoomToken e w of
                     (Inl err, w1) \<Rightarrow> Some (Inl err, w1)
                   | (Inr accessToken, w1) \<Rightarrow> cronSwitch e action (js_String accessToken) w1))"

definition cronTrigger :: "env \<Rightarrow> request \<Rightarrow> world \<Rightarrow> (response \<times> world) option" where
  "cronTrigger e req w =
     (if req_method req = ''OPTIONS'' then Some (\<lparr>status = 200, content = Text ''ok''\<rparr>, w)
      else case cronTry e req w of
             None \<Rightarrow> None
           | Some (Inr resp, w1) \<Rightarrow> Some (resp, w1)
           | Some (Inl err, w1) \<Rightarrow>
               Some (jsonResponse 500 [(''error'', JStr (errorMessage err))], consoleError ''Error:'' w1))"

section \<open>zoom-users\<close>

text \<open>\<^verbatim>\<open>verifyCronAuth\<close> returns nothing or throws; \<^const>\<open>None\<close> is the normal return.\<close>

definition verifyCronAuth :: "env \<Rightarrow> request \<Rightarrow> exn option" where
  "verifyCronAuth e req =
     (let authHeader = req_headers req ''authorization''
      in if falsy authHeader then Some (Error ''Missing Authorization header'')
         else if falsy (CRON_SECRET e) then Some (Error ''CRON_SECRET not configured'')
         else if map_option (replaceFirst ''Bearer '' []) authHeader \<noteq> CRON_SECRET e
              then Some (Error ''Invalid authorization'')
              else None)"

text \<open>Step 2, \<^verbatim>\<open>if (now >= expiresAt - 300)\<close>, with \<^verbatim>\<open>now = Math.floor(Date.now() / 1000)\<close> and
  \<^verbatim>\<open>expiresAt\<close> the expiry in seconds, a fraction; both sides are scaled to milliseconds.\<close>

definition refreshIfNeeded :: "env \<Rightarrow> token_row \<Rightarrow> world \<Rightarrow> (exn + jsv) \<times> world" where
  "refreshIfNeeded e tokenData w =
     (let now = Date_now e div 1000
      in if now * 1000 \<ge> expires_at tokenData - 300 * 1000 then
           let w1 = logCall tokenEndpoint w
           in case zoom_oauth_token e (refresh_token tokenData) of
                Rejected \<Rightarrow> (Inl TypeError, w1)
              | NotOk text \<Rightarrow> (Inl (Error ''Token refresh failed''), w1)
              | Ok newTokens \<Rightarrow>
                  (case newExpiry e newTokens of
                     Inl err \<Rightarrow> (Inl err, w1)
                   | Inr newExpiresAt \<Rightarrow>
                       (case updateTokens e newTokens newExpiresAt w1 of
                          (updateError, w2) \<Rightarrow> (Inr (new_access_token newTokens), w2)))
         else (Inr (access_token tokenData), w))"

text \<open>Step 3, the \<^verbatim>\<open>do ... while (nextPageToken)\<close> that fills \<^verbatim>\<open>allUsers\<close>; spreading a missing
  \<^verbatim>\<open>data.users\<close> throws. \<^const>\<open>None\<close> when the provider's cursors never end.\<close>

partial_function (option) fetchAllUsers ::
    "env \<Rightarrow> string \<Rightarrow> string \<Rightarrow> jsv list \<Rightarrow> world \<Rightarrow> ((exn + jsv list) \<times> world) option" where
  "fetchAllUsers e accessToken nextPageToken allUsers w =
     (let w1 = logCall (usersEndpoint ''page_size=300&status=active'' nextPageToken) w
      in case zoom_api_users e ''page_size=300&status=active'' accessToken nextPageToken of
           Rejected \<Rightarrow> Some (Inl TypeError, w1)
         | NotOk text \<Rightarrow> Some (Inl (Error ''Failed to fetch Zoom users''), w1)
         | Ok data \<Rightarrow>
             (case users data of
                None \<Rightarrow> Some (Inl TypeError, w1)
              | Some us \<Rightarrow>
                  if next_page_token data \<noteq> []
                  then fetchAllUsers e accessToken (next_page_token data) (allUsers @ us) w1
                  else Some (Inr (allUsers @ us), w1)))"

text \<open>Step 4: one upsert of the whole array. supabase-js names every key of the objects as a
  column of the statement, so a member that is \<^verbatim>\<open>undefined\<close> is written as \<^verbatim>\<open>NULL\<close>; the
  statement takes effect as a whole or not at all.\<close>

definition nullForUndefined :: "(string \<times> jsv) list \<Rightarrow> (string \<times> jsv) list" where
  "nullForUndefined obj = map (\<lambda>kv. (fst kv, if snd kv = JUndefined then JNull else snd kv)) obj"

fun bulkUpsertRows :: "string \<Rightarrow> (string \<times> jsv) list list \<Rightarrow> table \<Rightarrow> table option" where
  "bulkUpsertRows keycol [] t = Some t"
| "bulkUpsertRows keycol (obj # objs) t =
     (case keyOf (get (JObj obj) keycol) of
        None \<Rightarrow> None
      | Some k \<Rightarrow> bulkUpsertRows keycol objs (upsertRows keycol k (nullForUndefined obj) t))"

definition upsertUsersBulk :: "env \<Rightarrow> (string \<times> jsv) list list \<Rightarrow> world \<Rightarrow> bool \<times> world" where
  "upsertUsersBulk e objs w =
     (let w1 = logCall (StoreCall ''zoom_users'' ''upsert'') w
      in if failsNow e w then (True, w1)
         else case bulkUpsertRows ''id'' objs (zoom_users w1) of
                None \<Rightarrow> (True, w1)
              | Some t \<Rightarrow> (False, w1\<lparr>zoom_users := t\<rparr>))"

text \<open>The \<^verbatim>\<open>try\<close> block of the handler. (Its \<^verbatim>\<open>catch\<close> picks the status by searching the
  message of what was thrown.) A failed upsert throws the store's error object, here
  \<^verbatim>\<open>Error ''store''\<close>.\<close>

definition zoomUsersTry :: "env \<Rightarrow> request \<Rightarrow> world \<Rightarrow> ((exn + response) \<times> world) option" where
  "zoomUsersTry e req w =
     (case verifyCronAuth e req of
        Some err \<Rightarrow> Some (Inl err, w)
      | None \<Rightarrow>
          (case selectTokens e w of
             (None, w1) \<Rightarrow> Some (Inl (Error ''No Zoom tokens found.''), w1)
           | (Some tokenData, w1) \<Rightarrow>
               (case refreshIfNeeded e tokenData w1 of
                  (Inl err, w2) \<Rightarrow> Some (Inl err, w2)
                | (Inr accessToken, w2) \<Rightarrow>
                    (case fetchAllUsers e (js_String accessToken) [] [] w2 of
                       None \<Rightarrow> None
                     | Some (Inl err, w3) \<Rightarrow> Some (Inl err, w3)
                     | Some (Inr allUsers, w3) \<Rightarrow>
                         if list_ex nullish allUsers then Some (Inl TypeError, w3)
                         else let upsertData = map (syncUserRow e) allUsers
                              in if upsertData \<noteq> [] then
                                   (case upsertUsersBulk e upsertData w3 of
                                      (error, w4) \<Rightarrow>
                                        if error then Some (Inl (Error ''store''), w4)
                                        else Some (Inr (jsonResponse 200
                                               [(''success'', JBool True),
                                                (''users_synced'', JNum (int (length upsertData)))]), w4))
                                 else Some (Inr (jsonResponse 200
                                        [(''success'', JBool True),
                                         (''users_synced'', JNum (int (length upsertData)))]), w3)))))"

section \<open>Vocabulary of the statements\<close>

definition isStoreCall :: "call \<Rightarrow> bool" where
  "isStoreCall c = (case c of StoreCall t op \<Rightarrow> True | _ \<Rightarrow> False)"

text \<open>What an invocation that started in \<open>w\<close> and ended in \<open>w'\<close> added to the trace.\<close>

definition newCalls :: "world \<Rightarrow> world \<Rightarrow> call list" where
  "newCalls w w' = drop (length (calls w)) (calls w')"

text \<open>The request \<open>req\<close> is a delivery of the event \<open>ev\<close> with JSON \<open>body\<close> that passes
  \<^const>\<open>verifyZoomSignature\<close>.\<close>

definition verifiedDelivery :: "env \<Rightarrow> request \<Rightarrow> jsv \<Rightarrow> string \<Rightarrow> bool" where
  "verifiedDelivery e req body ev =
     (req_method req \<noteq> ''OPTIONS'' \<and> JSON_parse e (req_text req) = Some body \<and>
      get body ''event'' = JStr ev \<and> ev \<noteq> ''endpoint.url_validation'' \<and>
      verifyZoomSignature e req (req_text req) = Inr True)"

text \<open>The signature header the provider computes for a body, with the shared secret.\<close>

definition zoomSignature :: "env \<Rightarrow> string \<Rightarrow> string \<Rightarrow> string \<Rightarrow> string" where
  "zoomSignature e secret timestamp rawBody =
     ''v0='' @ toHex (hmacSha256 e secret (signedMessage timestamp rawBody))"

text \<open>The provider answers the cursors starting at \<open>c\<close> with exactly these pages (users and
  next cursor), the last one, and only the last, with an empty cursor.\<close>

fun pagesFrom :: "(string \<Rightarrow> users_page fetched) \<Rightarrow> string \<Rightarrow> (jsv list \<times> string) list \<Rightarrow> bool" where
  "pagesFrom api c [] = False"
| "pagesFrom api c (p # rest) =
     (api c = Ok \<lparr>users = Some (fst p), next_page_token = snd p\<rparr> \<and>
      (if rest = [] then snd p = [] else snd p \<noteq> [] \<and> pagesFrom api (snd p) rest))"

text \<open>The cursors of the requests that fetch these pages, starting at \<open>c\<close>.\<close>

definition cursorsOf :: "string \<Rightarrow> (jsv list \<times> string) list \<Rightarrow> string list" where
  "cursorsOf c pages = c # butlast (map snd pages)"

text \<open>The keys under which a list of users (of meetings) is stored.\<close>

definition userKeys :: "jsv list \<Rightarrow> string set" where
  "userKeys us = {k. \<exists>u \<in> set us. keyOf (get u ''id'') = Some k}"

definition meetingKeys :: "jsv list \<Rightarrow> string set" where
  "meetingKeys ms = {k. \<exists>m \<in> set ms. k = js_String (get m ''id'')}"

text \<open>The keys of every meeting the provider lists for one of these users.\<close>

definition listedMeetingKeys :: "env \<Rightarrow> string \<Rightarrow> string list \<Rightarrow> string set" where
  "listedMeetingKeys e accessToken uids =
     {k. \<exists>uid \<in> set uids. \<exists>ms. zoom_api_meetings e accessToken uid = Ok (Some ms) \<and> k \<in> meetingKeys ms}"

text \<open>Table \<open>t'\<close> comes from \<open>t\<close> by upserts under these keys only: the rows under every other
  key are as they were, and no key of \<open>t\<close> is lost.\<close>

definition onlyUpserts :: "string set \<Rightarrow> table \<Rightarrow> table \<Rightarrow> bool" where
  "onlyUpserts keys t t' =
     ((\<forall>k. k \<notin> keys \<longrightarrow> map_of t' k = map_of t k) \<and> (\<forall>k. map_of t k \<noteq> None \<longrightarrow> map_of t' k \<noteq> None))"

text \<open>The position in the trace of the call that changes \<^verbatim>\<open>zoom_meetings\<close> for a meeting event:
  after the insert into the log and, when that failed, its \<^verbatim>\<open>console.error\<close> line.\<close>

definition meetingCallPos :: "env \<Rightarrow> world \<Rightarrow> nat" where
  "meetingCallPos e w = length (calls w) + (if store_fails e (length (calls w)) then 2 else 1)"

section \<open>Example data\<close>

text \<open>A stand-in for HMAC-SHA256 in the examples (a one-byte checksum, not a MAC).\<close>

definition exampleMac :: "string \<Rightarrow> string \<Rightarrow> 8 word list" where
  "exampleMac key msg = [of_nat (sum_list (map of_char (key @ msg)))]"

definition quoted :: "string \<Rightarrow> string" where
  "quoted s = CHR 0x22 # s @ [CHR 0x22]"

text \<open>\<^verbatim>\<open>{"event":"...","payload":{"object":{"id":...,...}}}\<close>\<close>

definition eventJson :: "string \<Rightarrow> string \<Rightarrow> string" where
  "eventJson ev obj =
     ''{'' @ quoted ''event'' @ '':'' @ quoted ev @ '','' @ quoted ''payload'' @ '':{'' @
       quoted ''object'' @ '':{'' @ obj @ ''}}}''"

definition eventBody :: "string \<Rightarrow> (string \<times> jsv) list \<Rightarrow> jsv" where
  "eventBody ev obj = JObj [(''event'', JStr ev), (''payload'', JObj [(''object'', JObj obj)])]"

definition rawMeetingUpdated :: string where
  "rawMeetingUpdated = eventJson ''meeting.updated'' (quoted ''id'' @ '':123,'' @ quoted ''duration'' @ '':45'')"

definition rawMeetingDeleted :: string where
  "rawMeetingDeleted = eventJson ''meeting.deleted'' (quoted ''id'' @ '':123'')"

definition rawUserDeleted :: string where
  "rawUserDeleted = eventJson ''user.deleted'' (quoted ''id'' @ '':'' @ quoted ''u3'')"

definition rawUserUpdated :: string where
  "rawUserUpdated = eventJson ''user.updated''
     (quoted ''id'' @ '':'' @ quoted ''u1'' @ '','' @ quoted ''first_name'' @ '':'' @ quoted ''Ann'')"

definition rawValidation :: string where
  "rawValidation = ''{'' @ quoted ''event'' @ '':'' @ quoted ''endpoint.url_validation'' @ '','' @
     quoted ''payload'' @ '':{'' @ quoted ''plainToken'' @ '':'' @ quoted ''abc'' @ ''}}''"

definition exampleParse :: "string \<Rightarrow> jsv option" where
  "exampleParse s =
     (if s = rawMeetingUpdated then Some (eventBody ''meeting.updated'' [(''id'', JNum 123), (''duration'', JNum 45)])
      else if s = rawMeetingDeleted then Some (eventBody ''meeting.deleted'' [(''id'', JNum 123)])
      else if s = rawUserDeleted then Some (eventBody ''user.deleted'' [(''id'', JStr ''u3'')])
      else if s = rawUserUpdated then
        Some (eventBody ''user.updated'' [(''id'', JStr ''u1''), (''first_name'', JStr ''Ann'')])
      else if s = rawValidation then
        Some (JObj [(''event'', JStr ''endpoint.url_validation''),
                    (''payload'', JObj [(''plainToken'', JStr ''abc'')])])
      else if s = ''{}'' then Some (JObj [])
      else if s = ''{'' @ quoted ''action'' @ '':'' @ quoted ''sync-everything'' @ ''}''
        then Some (JObj [(''action'', JStr ''sync-everything'')])
      else None)"

definition u1 :: jsv where
  "u1 = JObj [(''id'', JStr ''u1''), (''email'', JStr ''ann@example.org''), (''status'', JStr ''active'')]"

definition u2 :: jsv where
  "u2 = JObj [(''id'', JStr ''u2''), (''email'', JStr ''bob@example.org''), (''status'', JStr ''active'')]"

text \<open>Scenario B: page 1 is \<open>[u1]\<close> with cursor \<open>X\<close>, page 2 is \<open>[u2]\<close> with no cursor.\<close>

definition twoPages :: "string \<Rightarrow> string \<Rightarrow> string \<Rightarrow> users_page fetched" where
  "twoPages query accessToken cursor =
     (if cursor = [] then Ok \<lparr>users = Some [u1], next_page_token = ''X''\<rparr>
      else if cursor = ''X'' then Ok \<lparr>users = Some [u2], next_page_token = []\<rparr>
      else NotOk ''Invalid token'')"

text \<open>The clock reads 1000 s; the provider accepts a refresh and lists no meetings; no store
  call fails.\<close>

definition exampleEnv :: env where
  "exampleEnv = \<lparr>
     ZOOM_WEBHOOK_SECRET_TOKEN = Some ''s3cret'',
     CRON_SECRET = Some ''cron'',
     Date_now = 1000000,
     hmacSha256 = exampleMac,
     JSON_parse = exampleParse,
     zoom_oauth_token = (\<lambda>r. Ok \<lparr>new_access_token = JStr ''new'', new_refresh_token = JStr ''r1'',
                                   expires_in = Some 3600\<rparr>),
     zoom_api_users = twoPages,
     zoom_api_meetings = (\<lambda>accessToken uid. Ok (Some [])),
     store_fails = (\<lambda>n. False)\<rparr>"

text \<open>A delivery of \<open>rawBody\<close> stamped \<open>timestamp\<close> and signed by the provider.\<close>

definition signedRequest :: "string \<Rightarrow> string \<Rightarrow> request" where
  "signedRequest timestamp rawBody = \<lparr>
     req_method = ''POST'',
     req_headers = (\<lambda>h. if h = ''x-zm-signature'' then Some (zoomSignature exampleEnv ''s3cret'' timestamp rawBody)
                         else if h = ''x-zm-request-timestamp'' then Some timestamp
                         else None),
     req_text = rawBody\<rparr>"

text \<open>The same body with no headers at all.\<close>

definition unsignedRequest :: "string \<Rightarrow> request" where
  "unsignedRequest rawBody = \<lparr>req_method = ''POST'', req_headers = (\<lambda>h. None), req_text = rawBody\<rparr>"

definition cronRequest :: "string \<Rightarrow> request" where
  "cronRequest rawBody = \<lparr>
     req_method = ''POST'',
     req_headers = (\<lambda>h. if h = ''authorization'' then Some ''Bearer cron'' else None),
     req_text = rawBody\<rparr>"

text \<open>A store holding the users \<open>u1\<close> and \<open>u3\<close> (whom the provider no longer lists), the
  meeting \<open>123\<close> of \<open>u1\<close>, and a credential that expires in 100 s.\<close>

definition exampleWorld :: world where
  "exampleWorld = \<lparr>
     zoom_tokens = Some \<lparr>access_token = JStr ''old'', refresh_token = JStr ''r0'', expires_at = 1100000\<rparr>,
     zoom_users = [(''u1'', newRow [(''id'', JStr ''u1''), (''email'', JStr ''ann@example.org''),
                                    (''last_name'', JStr ''Lee''), (''status'', JStr ''active'')]),
                   (''u3'', newRow [(''id'', JStr ''u3''), (''email'', JStr ''cy@example.org''),
                                    (''status'', JStr ''inactive'')])],
     zoom_meetings = [(''123'', newRow [(''meeting_id'', JStr ''123''), (''host_id'', JStr ''u1''),
                                        (''topic'', JStr ''Standup''), (''updated_at'', JNum 5)])],
     zoom_events = [],
     calls = []\<rparr>"

text \<open>The example environment with the store call at position \<open>n\<close> of the trace failing, and
  the example environment one minute later.\<close>

definition failingEnv :: "nat \<Rightarrow> env" where
  "failingEnv n = exampleEnv\<lparr>store_fails := (\<lambda>i. i = n)\<rparr>"

definition laterEnv :: env where
  "laterEnv = exampleEnv\<lparr>Date_now := 1060000\<rparr>"

section \<open>Signature verification\<close>










lemmas example_defs = exampleEnv_def failingEnv_def laterEnv_def signedRequest_def unsignedRequest_def zoomSignature_def
  signedMessage_def rawMeetingUpdated_def rawMeetingDeleted_def rawUserDeleted_def rawUserUpdated_def
  rawValidation_def eventJson_def eventBody_def quoted_def exampleParse_def

lemmas parseInt_defs = parseInt_def isWhiteSpace_def digitVal_def digitsValue_def Let_def


section \<open>The branches of the webhook handler\<close>

lemma get_defined_obj: "get x k \<noteq> JUndefined \<Longrightarrow> \<exists>kvs. x = JObj kvs"
  by (cases x) simp_all

lemma get_JStr_not_nullish: "get b k = JStr s \<Longrightarrow> \<not> nullish b"
  by (cases b) (simp_all add: nullish_def)

lemma not_nullish_get: "\<not> nullish (get x k) \<Longrightarrow> \<not> nullish x"
  by (cases x) (simp_all add: nullish_def)

lemma relevant_not_user: "ev \<in> set relevantEvents \<Longrightarrow> \<not> startsWith ev ''user.''"
  by (auto simp: relevantEvents_def startsWith_def)

lemma webhook_meeting:
  "verifiedDelivery e req body ev \<Longrightarrow> ev \<in> set relevantEvents \<Longrightarrow>
   webhookTry e req w = meetingEvent e body (JStr ev) w"
  by (auto simp: verifiedDelivery_def webhookTry_def readProp_def dest: get_JStr_not_nullish)

lemma webhook_user:
  "verifiedDelivery e req body ev \<Longrightarrow> startsWith ev ''user.'' \<Longrightarrow>
   webhookTry e req w = userEvent e body ev w"
  by (auto simp: verifiedDelivery_def webhookTry_def readProp_def dest: get_JStr_not_nullish relevant_not_user)

lemma zoomWebhook_unfold:
  "req_method req \<noteq> ''OPTIONS'' \<Longrightarrow>
   zoomWebhook e req w = (case webhookTry e req w of
             (Inr resp, w1) \<Rightarrow> (resp, w1)
           | (Inl err, w1) \<Rightarrow>
               (jsonResponse 500 [(''error'', JStr ''Internal server error'')],
                consoleError ''Error interno:'' w1))"
  by (simp add: zoomWebhook_def)

lemma map_of_filter_defined:
  "distinct (map fst obj) \<Longrightarrow>
   map_of (filter (\<lambda>kv. snd kv \<noteq> JUndefined) obj) k =
     (case map_of obj k of None \<Rightarrow> None | Some v \<Rightarrow> if v = JUndefined then None else Some v)"
proof (induction obj)
  case Nil
  then show ?case by simp
next
  case (Cons a obj)
  then show ?case
    by (cases a) (auto simp: map_of_eq_None_iff image_iff split: option.splits)
qed

lemma get_deleteUndefinedKeys:
  "distinct (map fst obj) \<Longrightarrow> get (JObj (deleteUndefinedKeys obj)) k = get (JObj obj) k"
  by (simp add: deleteUndefinedKeys_def map_of_filter_defined split: option.splits)

lemma distinct_userData: "distinct (map fst (userData e u))"
  by (simp add: userData_def)

lemma distinct_syncData: "distinct (map fst (syncData e mid m))"
  by (simp add: syncData_def)

lemmas store_defs = insertEvent_def upsertMeeting_def deleteMeeting_def upsertUser_def deleteUser_def
  logCall_def consoleError_def failsNow_def

lemma meetingEvent_wellformed:
  assumes "\<not> nullish (get m ''id'')" and "get (get body ''payload'') ''object'' = m"
  shows "meetingEvent e body ev w =
     syncMeeting e ev m (if store_fails e (length (calls w))
        then consoleError ''Error guardando log:'' (logCall (StoreCall ''zoom_events'' ''insert'') w)
        else (logCall (StoreCall ''zoom_events'' ''insert'') w)
               \<lparr>zoom_events := zoom_events w @ [newRow (meetingData body ev m)]\<rparr>)"
proof -
  from assms have 1: "\<not> nullish m" using not_nullish_get by blast
  with assms(2) have 2: "\<not> nullish (get body ''payload'')" using not_nullish_get by metis
  from 1 2 assms(2) show ?thesis
    by (simp add: meetingEvent_def readProp_def insertEvent_def failsNow_def logCall_def Let_def)
qed

lemma syncMeeting_wellformed:
  assumes "\<not> nullish (get m ''id'')"
  shows "syncMeeting e ev m w =
    (Inr success,
     if ev = JStr ''meeting.deleted'' then
       (if store_fails e (length (calls w))
        then consoleError ''Error eliminando meeting sync:'' (logCall (StoreCall ''zoom_meetings'' ''delete'') w)
        else (logCall (StoreCall ''zoom_meetings'' ''delete'') w)
               \<lparr>zoom_meetings := deleteRows (js_String (get m ''id'')) (zoom_meetings w)\<rparr>)
     else
       (if store_fails e (length (calls w))
        then consoleError ''Error sincronizando meeting:'' (logCall (StoreCall ''zoom_meetings'' ''upsert'') w)
        else (logCall (StoreCall ''zoom_meetings'' ''upsert'') w)
               \<lparr>zoom_meetings := upsertRows ''meeting_id'' (js_String (get m ''id''))
                    (syncData e (js_String (get m ''id'')) m) (zoom_meetings w)\<rparr>))"
  using assms
  by (simp add: syncMeeting_def toString_def deleteMeeting_def upsertMeeting_def failsNow_def logCall_def
      Let_def keyOf_def syncData_def)

lemma userEvent_wellformed:
  assumes "\<not> nullish u" and "get (get body ''payload'') ''object'' = u"
  shows "userEvent e body ev w =
    (Inr success,
     if ev = ''user.deleted'' \<or> ev = ''user.disassociated'' then
       (if store_fails e (length (calls w))
        then consoleError ''Error eliminando usuario:'' (logCall (StoreCall ''zoom_users'' ''delete'') w)
        else (logCall (StoreCall ''zoom_users'' ''delete'') w)
               \<lparr>zoom_users := deleteRows (js_String (get u ''id'')) (zoom_users w),
                zoom_meetings := hostSetNull (js_String (get u ''id'')) (zoom_meetings w)\<rparr>)
     else
       (if store_fails e (length (calls w)) \<or> keyOf (get u ''id'') = None
        then consoleError ''Error actualizando usuario:'' (logCall (StoreCall ''zoom_users'' ''upsert'') w)
        else (logCall (StoreCall ''zoom_users'' ''upsert'') w)
               \<lparr>zoom_users := upsertRows ''id'' (the (keyOf (get u ''id'')))
                    (deleteUndefinedKeys (userData e u)) (zoom_users w)\<rparr>))"
proof -
  from assms have 2: "\<not> nullish (get body ''payload'')" using not_nullish_get by metis
  have k: "map_of (deleteUndefinedKeys (userData e u)) ''id'' =
      (if get u ''id'' = JUndefined then None else Some (get u ''id''))"
    by (simp add: deleteUndefinedKeys_def map_of_filter_defined[OF distinct_userData]) (simp add: userData_def)
  have k0: "keyOf JUndefined = None" by (simp add: keyOf_def)
  from assms 2 show ?thesis
    by (auto simp add: userEvent_def readProp_def deleteUser_def upsertUser_def failsNow_def logCall_def
      Let_def k k0 split: option.splits)
qed

lemma zoomWebhook_meeting:
  assumes "verifiedDelivery e req body ev" "ev \<in> set relevantEvents"
    "get (get body ''payload'') ''object'' = m" "\<not> nullish (get m ''id'')"
  shows "zoomWebhook e req w = (success, snd (meetingEvent e body (JStr ev) w))"
proof -
  from assms(1) have m: "req_method req \<noteq> ''OPTIONS''" by (simp add: verifiedDelivery_def)
  show ?thesis
    by (simp add: zoomWebhook_unfold[OF m] webhook_meeting[OF assms(1,2)]
        meetingEvent_wellformed[OF assms(4,3)] syncMeeting_wellformed[OF assms(4)])
qed

lemma zoomWebhook_user:
  assumes "verifiedDelivery e req body ev" "startsWith ev ''user.''"
    "get (get body ''payload'') ''object'' = u" "\<not> nullish u"
  shows "zoomWebhook e req w = (success, snd (userEvent e body ev w))"
proof -
  from assms(1) have m: "req_method req \<noteq> ''OPTIONS''" by (simp add: verifiedDelivery_def)
  show ?thesis
    by (simp add: zoomWebhook_unfold[OF m] webhook_user[OF assms(1,2)]
        userEvent_wellformed[OF assms(4,3)])
qed

lemma meetingEvent_table:
  assumes "get (get body ''payload'') ''object'' = m" "\<not> nullish (get m ''id'')"
  shows "zoom_meetings (snd (meetingEvent e body ev w)) =
    (if store_fails e (meetingCallPos e w) then zoom_meetings w
     else if ev = JStr ''meeting.deleted'' then deleteRows (js_String (get m ''id'')) (zoom_meetings w)
     else upsertRows ''meeting_id'' (js_String (get m ''id''))
            (syncData e (js_String (get m ''id'')) m) (zoom_meetings w))"
  by (simp add: meetingEvent_wellformed[OF assms(2,1)] syncMeeting_wellformed[OF assms(2)]
      meetingCallPos_def logCall_def consoleError_def)

lemma meetingEvent_users:
  assumes "get (get body ''payload'') ''object'' = m" "\<not> nullish (get m ''id'')"
  shows "zoom_users (snd (meetingEvent e body ev w)) = zoom_users w"
  by (simp add: meetingEvent_wellformed[OF assms(2,1)] syncMeeting_wellformed[OF assms(2)]
      logCall_def consoleError_def)

lemma meetingEvent_console:
  assumes "get (get body ''payload'') ''object'' = m" "\<not> nullish (get m ''id'')"
    "store_fails e (meetingCallPos e w)"
  shows "ConsoleError (if ev = JStr ''meeting.deleted'' then ''Error eliminando meeting sync:''
                       else ''Error sincronizando meeting:'')
           \<in> set (newCalls w (snd (meetingEvent e body ev w)))"
  using assms(3)
  by (auto simp add: meetingEvent_wellformed[OF assms(2,1)] syncMeeting_wellformed[OF assms(2)]
      meetingCallPos_def logCall_def consoleError_def newCalls_def split: if_splits)

lemma userEvent_table:
  assumes "get (get body ''payload'') ''object'' = u" "\<not> nullish u"
  shows "zoom_users (snd (userEvent e body ev w)) =
    (if ev = ''user.deleted'' \<or> ev = ''user.disassociated'' then
       (if store_fails e (length (calls w)) then zoom_users w
        else deleteRows (js_String (get u ''id'')) (zoom_users w))
     else
       (if store_fails e (length (calls w)) \<or> keyOf (get u ''id'') = None then zoom_users w
        else upsertRows ''id'' (the (keyOf (get u ''id''))) (deleteUndefinedKeys (userData e u)) (zoom_users w)))"
  by (simp add: userEvent_wellformed[OF assms(2,1)] logCall_def consoleError_def)

lemma userEvent_console:
  assumes "get (get body ''payload'') ''object'' = u" "\<not> nullish u"
    "store_fails e (length (calls w))"
  shows "ConsoleError (if ev = ''user.deleted'' \<or> ev = ''user.disassociated''
                       then ''Error eliminando usuario:'' else ''Error actualizando usuario:'')
           \<in> set (newCalls w (snd (userEvent e body ev w)))
         \<and> zoom_meetings (snd (userEvent e body ev w)) = zoom_meetings w"
  using assms(3)
  by (simp add: userEvent_wellformed[OF assms(2,1)] logCall_def consoleError_def newCalls_def)

subsection \<open>Lookups after an upsert or a delete\<close>

lemma map_of_upsertRows:
  "map_of (upsertRows keycol k obj t) k' =
     (if k' = k then Some ((case map_of t k of None \<Rightarrow> newRow obj | Some r \<Rightarrow> mergeRow r obj)(keycol := JStr k))
      else map_of t k')"
  by (induction t) (auto simp: fun_eq_iff)

lemma map_of_deleteRows: "map_of (deleteRows k t) k' = (if k' = k then None else map_of t k')"
  by (induction t) (auto simp: deleteRows_def)

lemma keys_upsertRows:
  "map fst (upsertRows keycol k obj t) = (if k \<in> set (map fst t) then map fst t else map fst t @ [k])"
  by (induction t) force+

lemma deleteRows_idem: "deleteRows k (deleteRows k t) = deleteRows k t"
  by (simp add: deleteRows_def)

lemma mergeRow_unchanged:
  "map_of obj col = None \<or> map_of obj col = Some JUndefined \<Longrightarrow> distinct (map fst obj) \<Longrightarrow>
   mergeRow r obj col = r col"
  by (auto simp: mergeRow_def dropUndefined_def map_of_filter_defined)

section \<open>Challenge handshake\<close>






section \<open>The audit log\<close>

lemma zoomWebhook_after_try:
  assumes "req_method req \<noteq> ''OPTIONS''"
  shows "calls (snd (zoomWebhook e req w)) =
           calls (snd (webhookTry e req w)) @
             (if isl (fst (webhookTry e req w)) then [ConsoleError ''Error interno:''] else [])"
    and "zoom_users (snd (zoomWebhook e req w)) = zoom_users (snd (webhookTry e req w))"
    and "zoom_meetings (snd (zoomWebhook e req w)) = zoom_meetings (snd (webhookTry e req w))"
    and "zoom_events (snd (zoomWebhook e req w)) = zoom_events (snd (webhookTry e req w))"
    and "zoom_tokens (snd (zoomWebhook e req w)) = zoom_tokens (snd (webhookTry e req w))"
proof -
  obtain a b where ab: "webhookTry e req w = (a, b)" by (cases "webhookTry e req w")
  show "calls (snd (zoomWebhook e req w)) =
           calls (snd (webhookTry e req w)) @
             (if isl (fst (webhookTry e req w)) then [ConsoleError ''Error interno:''] else [])"
    by (cases a) (simp_all add: zoomWebhook_unfold[OF assms] ab consoleError_def logCall_def)
  show "zoom_users (snd (zoomWebhook e req w)) = zoom_users (snd (webhookTry e req w))"
    by (cases a) (simp_all add: zoomWebhook_unfold[OF assms] ab consoleError_def logCall_def)
  show "zoom_meetings (snd (zoomWebhook e req w)) = zoom_meetings (snd (webhookTry e req w))"
    by (cases a) (simp_all add: zoomWebhook_unfold[OF assms] ab consoleError_def logCall_def)
  show "zoom_events (snd (zoomWebhook e req w)) = zoom_events (snd (webhookTry e req w))"
    by (cases a) (simp_all add: zoomWebhook_unfold[OF assms] ab consoleError_def logCall_def)
  show "zoom_tokens (snd (zoomWebhook e req w)) = zoom_tokens (snd (webhookTry e req w))"
    by (cases a) (simp_all add: zoomWebhook_unfold[OF assms] ab consoleError_def logCall_def)
qed

lemma syncMeeting_trace:
  "\<exists>rest. calls (snd (syncMeeting e ev m w)) = calls w @ rest
     \<and> StoreCall ''zoom_events'' ''insert'' \<notin> set rest
     \<and> zoom_events (snd (syncMeeting e ev m w)) = zoom_events w"
  by (simp add: syncMeeting_def store_defs Let_def split: sum.splits prod.splits option.splits)

lemma meetingEvent_trace:
  assumes "\<not> nullish (get body ''payload'')" "\<not> nullish (get (get body ''payload'') ''object'')"
  shows "\<exists>rest. calls (snd (meetingEvent e body ev w)) = calls w @ StoreCall ''zoom_events'' ''insert'' # rest
     \<and> StoreCall ''zoom_events'' ''insert'' \<notin> set rest
     \<and> zoom_events (snd (meetingEvent e body ev w)) =
         (if store_fails e (length (calls w)) then zoom_events w
          else zoom_events w @ [newRow (meetingData body ev (get (get body ''payload'') ''object''))])"
proof -
  let ?m = "get (get body ''payload'') ''object''"
  let ?w1 = "if store_fails e (length (calls w))
        then consoleError ''Error guardando log:'' (logCall (StoreCall ''zoom_events'' ''insert'') w)
        else (logCall (StoreCall ''zoom_events'' ''insert'') w)
               \<lparr>zoom_events := zoom_events w @ [newRow (meetingData body ev ?m)]\<rparr>"
  from assms have eq: "meetingEvent e body ev w = syncMeeting e ev ?m ?w1"
    by (simp add: meetingEvent_def readProp_def insertEvent_def failsNow_def logCall_def Let_def)
  obtain rest where r: "calls (snd (syncMeeting e ev ?m ?w1)) = calls ?w1 @ rest"
     "StoreCall ''zoom_events'' ''insert'' \<notin> set rest"
     "zoom_events (snd (syncMeeting e ev ?m ?w1)) = zoom_events ?w1"
    using syncMeeting_trace[of e ev ?m ?w1] by blast
  show ?thesis
  proof (cases "store_fails e (length (calls w))")
    case True
    with r eq show ?thesis
      by (intro exI[of _ "ConsoleError ''Error guardando log:'' # rest"]) (simp add: logCall_def consoleError_def)
  next
    case False
    with r eq show ?thesis
      by (intro exI[of _ rest]) (simp add: logCall_def consoleError_def)
  qed
qed

lemma audit_meeting:
  assumes "verifiedDelivery e req body ev" "ev \<in> set relevantEvents"
    "\<not> nullish (get body ''payload'')" "get (get body ''payload'') ''object'' = m" "\<not> nullish m"
  shows "zoom_events (snd (zoomWebhook e req w)) =
           (if store_fails e (length (calls w)) then zoom_events w
            else zoom_events w @ [newRow (meetingData body (JStr ev) m)])
     \<and> take 1 (newCalls w (snd (zoomWebhook e req w))) = [StoreCall ''zoom_events'' ''insert'']
     \<and> length (filter (\<lambda>c. c = StoreCall ''zoom_events'' ''insert'') (newCalls w (snd (zoomWebhook e req w)))) = 1"
proof -
  from assms(1) have mt: "req_method req \<noteq> ''OPTIONS''" by (simp add: verifiedDelivery_def)
  from assms(4,5) have o: "\<not> nullish (get (get body ''payload'') ''object'')" by simp
  obtain rest where r: "calls (snd (meetingEvent e body (JStr ev) w)) = calls w @ StoreCall ''zoom_events'' ''insert'' # rest"
     "StoreCall ''zoom_events'' ''insert'' \<notin> set rest"
     "zoom_events (snd (meetingEvent e body (JStr ev) w)) =
         (if store_fails e (length (calls w)) then zoom_events w
          else zoom_events w @ [newRow (meetingData body (JStr ev) (get (get body ''payload'') ''object''))])"
    using meetingEvent_trace[OF assms(3) o, of e "JStr ev" w] by blast
  from r(2) have f: "filter (\<lambda>c. c = StoreCall ''zoom_events'' ''insert'') rest = []"
    by (auto simp: filter_empty_conv)
  from r f assms(4) show ?thesis
    by (simp add: newCalls_def zoomWebhook_after_try[OF mt] webhook_meeting[OF assms(1,2)])
qed

lemma audit_user:
  assumes "verifiedDelivery e req body ev" "startsWith ev ''user.''"
  shows "zoom_events (snd (zoomWebhook e req w)) = zoom_events w"
proof -
  from assms(1) have mt: "req_method req \<noteq> ''OPTIONS''" by (simp add: verifiedDelivery_def)
  have "zoom_events (snd (userEvent e body ev w)) = zoom_events w"
    by (simp add: userEvent_def readProp_def store_defs Let_def split: sum.splits prod.splits option.splits)
  then show ?thesis
    by (simp add: zoomWebhook_after_try[OF mt] webhook_user[OF assms])
qed

subsection \<open>The example deliveries are verified\<close>

lemmas verify_eval = verifiedDelivery_def verifyZoomSignature_def falsy_def tooOld_def importKey_def
  parseInt_defs example_defs

lemma verified_userDeleted:
  "verifiedDelivery exampleEnv (signedRequest ''1000'' rawUserDeleted)
     (eventBody ''user.deleted'' [(''id'', JStr ''u3'')]) ''user.deleted''"
  by (simp add: verify_eval)

lemma verified_userUpdated:
  "verifiedDelivery exampleEnv (signedRequest ''1000'' rawUserUpdated)
     (eventBody ''user.updated'' [(''id'', JStr ''u1''), (''first_name'', JStr ''Ann'')]) ''user.updated''"
  by (simp add: verify_eval)

lemma verified_meetingDeleted:
  "verifiedDelivery (failingEnv n) (signedRequest ''1000'' rawMeetingDeleted)
     (eventBody ''meeting.deleted'' [(''id'', JNum 123)]) ''meeting.deleted''"
  by (simp add: verify_eval)

lemma verified_meetingUpdated:
  "verifiedDelivery exampleEnv (signedRequest ''1000'' rawMeetingUpdated)
     (eventBody ''meeting.updated'' [(''id'', JNum 123), (''duration'', JNum 45)]) ''meeting.updated''"
  by (simp add: verify_eval)

lemma verified_meetingUpdated_later:
  "verifiedDelivery laterEnv (signedRequest ''1000'' rawMeetingUpdated)
     (eventBody ''meeting.updated'' [(''id'', JNum 123), (''duration'', JNum 45)]) ''meeting.updated''"
  by (simp add: verify_eval)

lemma numToString_123: "numToString 123 = ''123''"
  by (simp add: numToString_def natToString.simps digitChar_def)

text \<open>
  C4 as stated fails for user events: the verified \<open>user.deleted\<close> of the example removes
  the row of \<open>u3\<close> from \<^verbatim>\<open>zoom_users\<close> and appends nothing to \<^verbatim>\<open>zoom_events\<close>.
\<close>

theorem audit_user_event_counterexample:
  "verifiedDelivery exampleEnv (signedRequest ''1000'' rawUserDeleted)
     (eventBody ''user.deleted'' [(''id'', JStr ''u3'')]) ''user.deleted''
   \<and> map_of (zoom_users exampleWorld) ''u3'' \<noteq> None
   \<and> map_of (zoom_users (snd (zoomWebhook exampleEnv (signedRequest ''1000'' rawUserDeleted) exampleWorld))) ''u3'' = None
   \<and> length (zoom_events (snd (zoomWebhook exampleEnv (signedRequest ''1000'' rawUserDeleted) exampleWorld)))
       = length (zoom_events exampleWorld)"
proof -
  let ?body = "eventBody ''user.deleted'' [(''id'', JStr ''u3'')]"
  have u: "get (get ?body ''payload'') ''object'' = JObj [(''id'', JStr ''u3'')]"
    by (simp add: eventBody_def)
  have s: "startsWith ''user.deleted'' ''user.''" by (simp add: startsWith_def)
  have n: "\<not> nullish (JObj [(''id'', JStr ''u3'')])" by (simp add: nullish_def)
  have 1: "map_of (zoom_users exampleWorld) ''u3'' \<noteq> None" by (simp add: exampleWorld_def)
  have 2: "map_of (zoom_users (snd (zoomWebhook exampleEnv (signedRequest ''1000'' rawUserDeleted) exampleWorld))) ''u3'' = None"
    by (simp add: zoomWebhook_user[OF verified_userDeleted s u n] userEvent_table[OF u n] map_of_deleteRows)
       (simp add: exampleEnv_def)
  have 3: "zoom_events (snd (zoomWebhook exampleEnv (signedRequest ''1000'' rawUserDeleted) exampleWorld)) = zoom_events exampleWorld"
    by (rule audit_user[OF verified_userDeleted s])
  from verified_userDeleted 1 2 3 show ?thesis by simp
qed

text \<open>
  C4, amended. For every verified meeting event (one of \<^const>\<open>relevantEvents\<close>, with a
  \<open>payload.object\<close>) the handler issues exactly one insert into \<^verbatim>\<open>zoom_events\<close>, as its
  first store call, and when that insert does not fail the log grows by exactly that one
  record, whatever the outcome of the upsert or delete that follows (the statement holds for
  every \<^const>\<open>store_fails\<close>). A verified user event appends nothing to the log.
\<close>

theorem audit_log_meeting_events:
  "(\<forall>ev m. verifiedDelivery e req body ev \<and> ev \<in> set relevantEvents
         \<and> \<not> nullish (get body ''payload'') \<and> get (get body ''payload'') ''object'' = m \<and> \<not> nullish m
      \<longrightarrow> zoom_events (snd (zoomWebhook e req w)) =
             (if store_fails e (length (calls w)) then zoom_events w
              else zoom_events w @ [newRow (meetingData body (JStr ev) m)])
          \<and> take 1 (newCalls w (snd (zoomWebhook e req w))) = [StoreCall ''zoom_events'' ''insert'']
          \<and> length (filter (\<lambda>c. c = StoreCall ''zoom_events'' ''insert'')
                       (newCalls w (snd (zoomWebhook e req w)))) = 1)
   \<and> (\<forall>ev. verifiedDelivery e req body ev \<and> startsWith ev ''user.''
      \<longrightarrow> zoom_events (snd (zoomWebhook e req w)) = zoom_events w)"
  using audit_meeting[of e req body _ _ w] audit_user[of e req body _ w] by blast

text \<open>With the delete failing, the example \<open>meeting.deleted\<close> still leaves one record in the
  log and the meeting in its table; the example \<open>user.deleted\<close> leaves the log empty.\<close>

theorem audit_log_meeting_events_witness:
  "length (zoom_events (snd (zoomWebhook (failingEnv 1) (signedRequest ''1000'' rawMeetingDeleted) exampleWorld))) = 1
   \<and> zoom_meetings (snd (zoomWebhook (failingEnv 1) (signedRequest ''1000'' rawMeetingDeleted) exampleWorld))
       = zoom_meetings exampleWorld
   \<and> zoom_events (snd (zoomWebhook exampleEnv (signedRequest ''1000'' rawUserDeleted) exampleWorld)) = []"
proof -
  let ?body = "eventBody ''meeting.deleted'' [(''id'', JNum 123)]"
  let ?req = "signedRequest ''1000'' rawMeetingDeleted"
  have m: "get (get ?body ''payload'') ''object'' = JObj [(''id'', JNum 123)]"
    by (simp add: eventBody_def)
  have i: "\<not> nullish (get (JObj [(''id'', JNum 123)]) ''id'')" by (simp add: nullish_def)
  have 1: "length (zoom_events (snd (zoomWebhook (failingEnv 1) ?req exampleWorld))) = 1"
    using audit_log_meeting_events[of "failingEnv 1" ?req ?body exampleWorld, THEN conjunct1, rule_format,
        of "''meeting.deleted''" "JObj [(''id'', JNum 123)]"] verified_meetingDeleted[of 1]
    by (simp add: relevantEvents_def eventBody_def nullish_def failingEnv_def exampleEnv_def exampleWorld_def)
  have 2: "zoom_meetings (snd (zoomWebhook (failingEnv 1) ?req exampleWorld)) = zoom_meetings exampleWorld"
    by (simp add: zoomWebhook_meeting[OF verified_meetingDeleted _ m i] meetingEvent_table[OF m i]
          relevantEvents_def meetingCallPos_def)
       (simp add: failingEnv_def exampleEnv_def exampleWorld_def)
  have 3: "zoom_events (snd (zoomWebhook exampleEnv (signedRequest ''1000'' rawUserDeleted) exampleWorld)) = []"
    using audit_log_meeting_events[of exampleEnv "signedRequest ''1000'' rawUserDeleted"
        "eventBody ''user.deleted'' [(''id'', JStr ''u3'')]" exampleWorld, THEN conjunct2, rule_format,
        of "''user.deleted''"] verified_userDeleted
    by (simp add: startsWith_def exampleWorld_def)
  from 1 2 3 show ?thesis by blast
qed

section \<open>Store errors in the webhook\<close>

lemma webhook_meeting_outcome:
  assumes "verifiedDelivery e req body ev" "ev \<in> set relevantEvents"
    "get (get body ''payload'') ''object'' = m" "\<not> nullish (get m ''id'')"
  shows "fst (zoomWebhook e req w) = success
     \<and> (store_fails e (meetingCallPos e w) \<longrightarrow>
          zoom_meetings (snd (zoomWebhook e req w)) = zoom_meetings w
          \<and> ConsoleError (if ev = ''meeting.deleted'' then ''Error eliminando meeting sync:''
                           else ''Error sincronizando meeting:'')
              \<in> set (newCalls w (snd (zoomWebhook e req w))))"
  using meetingEvent_console[OF assms(3,4), of e w "JStr ev"]
  by (simp add: zoomWebhook_meeting[OF assms] meetingEvent_table[OF assms(3,4)])

lemma webhook_user_outcome:
  assumes "verifiedDelivery e req body ev" "startsWith ev ''user.''"
    "get (get body ''payload'') ''object'' = u" "\<not> nullish u"
  shows "fst (zoomWebhook e req w) = success
     \<and> (store_fails e (length (calls w)) \<longrightarrow>
          zoom_users (snd (zoomWebhook e req w)) = zoom_users w
          \<and> zoom_meetings (snd (zoomWebhook e req w)) = zoom_meetings w
          \<and> ConsoleError (if ev = ''user.deleted'' \<or> ev = ''user.disassociated''
                           then ''Error eliminando usuario:'' else ''Error actualizando usuario:'')
              \<in> set (newCalls w (snd (zoomWebhook e req w))))"
  using userEvent_console[OF assms(3,4), of e w ev]
  by (simp add: zoomWebhook_user[OF assms] userEvent_table[OF assms(3,4)])

text \<open>
  C6 as stated fails: with the delete of the example \<open>meeting.deleted\<close> failing, the handler
  still answers 200 \<open>{success: true}\<close>, and the meeting stays in its table.
\<close>

theorem store_error_swallowed_counterexample:
  "verifiedDelivery (failingEnv 1) (signedRequest ''1000'' rawMeetingDeleted)
     (eventBody ''meeting.deleted'' [(''id'', JNum 123)]) ''meeting.deleted''
   \<and> store_fails (failingEnv 1) (meetingCallPos (failingEnv 1) exampleWorld)
   \<and> fst (zoomWebhook (failingEnv 1) (signedRequest ''1000'' rawMeetingDeleted) exampleWorld)
       = \<lparr>status = 200, content = Json [(''success'', JBool True)]\<rparr>
   \<and> map_of (zoom_meetings (snd (zoomWebhook (failingEnv 1) (signedRequest ''1000'' rawMeetingDeleted) exampleWorld))) ''123''
       \<noteq> None"
proof -
  let ?body = "eventBody ''meeting.deleted'' [(''id'', JNum 123)]"
  let ?req = "signedRequest ''1000'' rawMeetingDeleted"
  have m: "get (get ?body ''payload'') ''object'' = JObj [(''id'', JNum 123)]"
    by (simp add: eventBody_def)
  have i: "\<not> nullish (get (JObj [(''id'', JNum 123)]) ''id'')" by (simp add: nullish_def)
  have r: "''meeting.deleted'' \<in> set relevantEvents" by (simp add: relevantEvents_def)
  have f: "store_fails (failingEnv 1) (meetingCallPos (failingEnv 1) exampleWorld)"
    by (simp add: meetingCallPos_def failingEnv_def exampleEnv_def exampleWorld_def)
  have 1: "fst (zoomWebhook (failingEnv 1) ?req exampleWorld) = \<lparr>status = 200, content = Json [(''success'', JBool True)]\<rparr>"
    by (simp add: zoomWebhook_meeting[OF verified_meetingDeleted r m i] success_def jsonResponse_def dropUndefined_def)
  have 2: "zoom_meetings (snd (zoomWebhook (failingEnv 1) ?req exampleWorld)) = zoom_meetings exampleWorld"
    using f by (simp add: zoomWebhook_meeting[OF verified_meetingDeleted r m i] meetingEvent_table[OF m i])
  have 3: "map_of (zoom_meetings exampleWorld) ''123'' \<noteq> None" by (simp add: exampleWorld_def)
  from verified_meetingDeleted f 1 2 3 show ?thesis by simp
qed

text \<open>
  C6, amended. When the upsert or delete of a verified meeting or user event fails, the
  handler writes a \<^verbatim>\<open>console.error\<close> line, leaves the table as it was and still answers
  200 \<open>{success: true}\<close>, as it does when the call succeeds: in the webhook no store error
  reaches the caller, for the entity tables as for the log.
\<close>

theorem store_errors_logged:
  "(\<forall>ev m. verifiedDelivery e req body ev \<and> ev \<in> set relevantEvents
         \<and> get (get body ''payload'') ''object'' = m \<and> \<not> nullish (get m ''id'')
      \<longrightarrow> fst (zoomWebhook e req w) = success
          \<and> (store_fails e (meetingCallPos e w) \<longrightarrow>
                zoom_meetings (snd (zoomWebhook e req w)) = zoom_meetings w
                \<and> ConsoleError (if ev = ''meeting.deleted'' then ''Error eliminando meeting sync:''
                                 else ''Error sincronizando meeting:'')
                    \<in> set (newCalls w (snd (zoomWebhook e req w)))))
   \<and> (\<forall>ev u. verifiedDelivery e req body ev \<and> startsWith ev ''user.''
         \<and> get (get body ''payload'') ''object'' = u \<and> \<not> nullish u
      \<longrightarrow> fst (zoomWebhook e req w) = success
          \<and> (store_fails e (length (calls w)) \<longrightarrow>
                zoom_users (snd (zoomWebhook e req w)) = zoom_users w
                \<and> zoom_meetings (snd (zoomWebhook e req w)) = zoom_meetings w
                \<and> ConsoleError (if ev = ''user.deleted'' \<or> ev = ''user.disassociated''
                                 then ''Error eliminando usuario:'' else ''Error actualizando usuario:'')
                    \<in> set (newCalls w (snd (zoomWebhook e req w)))))"
  using webhook_meeting_outcome[of e req body _ _ w] webhook_user_outcome[of e req body _ _ w]
  by blast

text \<open>The example \<open>meeting.deleted\<close> with its delete failing.\<close>

theorem store_errors_logged_witness:
  "fst (zoomWebhook (failingEnv 1) (signedRequest ''1000'' rawMeetingDeleted) exampleWorld) = success
   \<and> zoom_meetings (snd (zoomWebhook (failingEnv 1) (signedRequest ''1000'' rawMeetingDeleted) exampleWorld))
       = zoom_meetings exampleWorld
   \<and> ConsoleError ''Error eliminando meeting sync:''
       \<in> set (newCalls exampleWorld (snd (zoomWebhook (failingEnv 1) (signedRequest ''1000'' rawMeetingDeleted) exampleWorld)))"
proof -
  let ?body = "eventBody ''meeting.deleted'' [(''id'', JNum 123)]"
  let ?req = "signedRequest ''1000'' rawMeetingDeleted"
  have f: "store_fails (failingEnv 1) (meetingCallPos (failingEnv 1) exampleWorld)"
    by (simp add: meetingCallPos_def failingEnv_def exampleEnv_def exampleWorld_def)
  show ?thesis
    using store_errors_logged[of "failingEnv 1" ?req ?body exampleWorld, THEN conjunct1, rule_format,
        of "''meeting.deleted''" "JObj [(''id'', JNum 123)]"] verified_meetingDeleted[of 1] f
    by (simp add: relevantEvents_def eventBody_def nullish_def)
qed

section \<open>Partial payloads\<close>

lemma syncData_absent:
  assumes "get m col = JUndefined" "col \<noteq> ''meeting_id''" "col \<noteq> ''updated_at''"
  shows "map_of (syncData e mid m) col = None \<or> map_of (syncData e mid m) col = Some JUndefined"
  using assms by (auto simp add: syncData_def)

lemma userData_absent:
  assumes "get u col = JUndefined" "col \<noteq> ''updated_at''"
  shows "map_of (deleteUndefinedKeys (userData e u)) col = None"
proof -
  from assms have "map_of (userData e u) col = None \<or> map_of (userData e u) col = Some JUndefined"
    by (auto simp add: userData_def)
  then show ?thesis
    by (auto simp: deleteUndefinedKeys_def map_of_filter_defined[OF distinct_userData])
qed

lemma distinct_deleteUndefinedKeys: "distinct (map fst obj) \<Longrightarrow> distinct (map fst (deleteUndefinedKeys obj))"
  by (simp add: deleteUndefinedKeys_def distinct_map_filter)

lemma upsertRows_keeps:
  assumes "map_of obj col = None \<or> map_of obj col = Some JUndefined" "distinct (map fst obj)"
    "col \<noteq> keycol" "map_of t k' = Some r"
  shows "\<exists>r'. map_of (upsertRows keycol k obj t) k' = Some r' \<and> r' col = r col"
proof (cases "k' = k")
  case True
  with assms show ?thesis
    by (simp add: map_of_upsertRows mergeRow_unchanged)
next
  case False
  with assms show ?thesis by (simp add: map_of_upsertRows)
qed

lemma meeting_partial:
  assumes "verifiedDelivery e req body ev" "ev \<in> set relevantEvents" "ev \<noteq> ''meeting.deleted''"
    "get (get body ''payload'') ''object'' = m" "\<not> nullish (get m ''id'')"
    "get m col = JUndefined" "col \<noteq> ''meeting_id''" "col \<noteq> ''updated_at''"
    "map_of (zoom_meetings w) k = Some r"
  shows "\<exists>r'. map_of (zoom_meetings (snd (zoomWebhook e req w))) k = Some r' \<and> r' col = r col"
proof (cases "store_fails e (meetingCallPos e w)")
  case True
  with assms(9) show ?thesis
    by (simp add: zoomWebhook_meeting[OF assms(1,2,4,5)] meetingEvent_table[OF assms(4,5)])
next
  case False
  from upsertRows_keeps[OF syncData_absent[OF assms(6,7,8)] distinct_syncData assms(7) assms(9)]
  obtain r' where "map_of (upsertRows ''meeting_id'' (js_String (get m ''id''))
      (syncData e (js_String (get m ''id'')) m) (zoom_meetings w)) k = Some r'" "r' col = r col"
    by blast
  with False assms(3) show ?thesis
    by (simp add: zoomWebhook_meeting[OF assms(1,2,4,5)] meetingEvent_table[OF assms(4,5)])
qed

lemma user_partial:
  assumes "verifiedDelivery e req body ev" "startsWith ev ''user.''"
    "ev \<noteq> ''user.deleted''" "ev \<noteq> ''user.disassociated''"
    "get (get body ''payload'') ''object'' = u" "\<not> nullish u"
    "get u col = JUndefined" "col \<noteq> ''id''" "col \<noteq> ''updated_at''"
    "map_of (zoom_users w) k = Some r"
  shows "\<exists>r'. map_of (zoom_users (snd (zoomWebhook e req w))) k = Some r' \<and> r' col = r col"
proof (cases "store_fails e (length (calls w)) \<or> keyOf (get u ''id'') = None")
  case True
  with assms(3,4,10) show ?thesis
    by (simp add: zoomWebhook_user[OF assms(1,2,5,6)] userEvent_table[OF assms(5,6)])
next
  case False
  have "map_of (deleteUndefinedKeys (userData e u)) col = None
      \<or> map_of (deleteUndefinedKeys (userData e u)) col = Some JUndefined"
    using userData_absent[OF assms(7,9)] by simp
  from upsertRows_keeps[OF this distinct_deleteUndefinedKeys[OF distinct_userData] assms(8) assms(10)]
  obtain r' where "map_of (upsertRows ''id'' (the (keyOf (get u ''id'')))
      (deleteUndefinedKeys (userData e u)) (zoom_users w)) k = Some r'" "r' col = r col"
    by blast
  with False assms(3,4) show ?thesis
    by (auto simp add: zoomWebhook_user[OF assms(1,2,5,6)] userEvent_table[OF assms(5,6)])
qed

text \<open>
  C5. Applying a verified meeting event that is not a deletion, whose payload object omits a
  field (\<open>topic\<close>, or any other column than the key and \<open>updated_at\<close>), leaves the value of
  that column unchanged in every stored meeting; the same holds for user events and
  \<^verbatim>\<open>zoom_users\<close>. The omitted members never reach the store: the user branch deletes them
  from the object, and in the meeting branch the serialisation of the object leaves them out.
\<close>

theorem partial_payload_merge:
  "(\<forall>ev m. verifiedDelivery e req body ev \<and> ev \<in> set relevantEvents \<and> ev \<noteq> ''meeting.deleted''
         \<and> get (get body ''payload'') ''object'' = m \<and> \<not> nullish (get m ''id'')
         \<and> get m col = JUndefined \<and> col \<noteq> ''meeting_id'' \<and> col \<noteq> ''updated_at''
         \<and> map_of (zoom_meetings w) k = Some r
      \<longrightarrow> (\<exists>r'. map_of (zoom_meetings (snd (zoomWebhook e req w))) k = Some r' \<and> r' col = r col))
   \<and> (\<forall>ev u. verifiedDelivery e req body ev \<and> startsWith ev ''user.''
         \<and> ev \<noteq> ''user.deleted'' \<and> ev \<noteq> ''user.disassociated''
         \<and> get (get body ''payload'') ''object'' = u \<and> \<not> nullish u
         \<and> get u col = JUndefined \<and> col \<noteq> ''id'' \<and> col \<noteq> ''updated_at''
         \<and> map_of (zoom_users w) k = Some r
      \<longrightarrow> (\<exists>r'. map_of (zoom_users (snd (zoomWebhook e req w))) k = Some r' \<and> r' col = r col))"
  using meeting_partial[of e req body _ _ col w k r] user_partial[of e req body _ _ col w k r]
  by blast

text \<open>The example \<open>meeting.updated\<close> carries no topic and the stored topic stays; the
  example \<open>user.updated\<close> carries no last name and the stored last name stays.\<close>

theorem partial_payload_merge_witness:
  "(\<exists>r'. map_of (zoom_meetings (snd (zoomWebhook exampleEnv (signedRequest ''1000'' rawMeetingUpdated) exampleWorld))) ''123''
        = Some r' \<and> r' ''topic'' = JStr ''Standup'')
   \<and> (\<exists>r'. map_of (zoom_users (snd (zoomWebhook exampleEnv (signedRequest ''1000'' rawUserUpdated) exampleWorld))) ''u1''
        = Some r' \<and> r' ''last_name'' = JStr ''Lee'')"
proof -
  let ?mrow = "newRow [(''meeting_id'', JStr ''123''), (''host_id'', JStr ''u1''),
                       (''topic'', JStr ''Standup''), (''updated_at'', JNum 5)]"
  let ?urow = "newRow [(''id'', JStr ''u1''), (''email'', JStr ''ann@example.org''),
                       (''last_name'', JStr ''Lee''), (''status'', JStr ''active'')]"
  have 1: "\<exists>r'. map_of (zoom_meetings (snd (zoomWebhook exampleEnv (signedRequest ''1000'' rawMeetingUpdated) exampleWorld))) ''123''
        = Some r' \<and> r' ''topic'' = ?mrow ''topic''"
    using partial_payload_merge[of exampleEnv "signedRequest ''1000'' rawMeetingUpdated"
        "eventBody ''meeting.updated'' [(''id'', JNum 123), (''duration'', JNum 45)]" "''topic''"
        exampleWorld "''123''" ?mrow, THEN conjunct1, rule_format,
        of "''meeting.updated''" "JObj [(''id'', JNum 123), (''duration'', JNum 45)]"]
      verified_meetingUpdated
    by (simp add: relevantEvents_def eventBody_def nullish_def exampleWorld_def)
  have 2: "\<exists>r'. map_of (zoom_users (snd (zoomWebhook exampleEnv (signedRequest ''1000'' rawUserUpdated) exampleWorld))) ''u1''
        = Some r' \<and> r' ''last_name'' = ?urow ''last_name''"
    using partial_payload_merge[of exampleEnv "signedRequest ''1000'' rawUserUpdated"
        "eventBody ''user.updated'' [(''id'', JStr ''u1''), (''first_name'', JStr ''Ann'')]" "''last_name''"
        exampleWorld "''u1''" ?urow, THEN conjunct2, rule_format,
        of "''user.updated''" "JObj [(''id'', JStr ''u1''), (''first_name'', JStr ''Ann'')]"]
      verified_userUpdated
    by (simp add: startsWith_def eventBody_def nullish_def exampleWorld_def)
  have 3: "?mrow ''topic'' = JStr ''Standup''" by (simp add: newRow_def dropUndefined_def)
  have 4: "?urow ''last_name'' = JStr ''Lee''" by (simp add: newRow_def dropUndefined_def)
  from 1 2 3 4 show ?thesis by simp
qed

section \<open>Redelivery\<close>

lemma webhook_meeting_table:
  assumes "verifiedDelivery e req body ev" "ev \<in> set relevantEvents"
  shows "zoom_meetings (snd (zoomWebhook e req w)) = zoom_meetings (snd (meetingEvent e body (JStr ev) w))"
proof -
  from assms(1) have mt: "req_method req \<noteq> ''OPTIONS''" by (simp add: verifiedDelivery_def)
  show ?thesis by (simp add: zoomWebhook_after_try[OF mt] webhook_meeting[OF assms])
qed

lemma meetingEvent_malformed:
  assumes "nullish (get (get (get body ''payload'') ''object'') ''id'')"
  shows "zoom_meetings (snd (meetingEvent e body ev w)) = zoom_meetings w"
  using assms
  by (simp add: meetingEvent_def readProp_def syncMeeting_def toString_def insertEvent_def
      logCall_def consoleError_def failsNow_def Let_def)

lemma syncData_agree:
  assumes "col \<noteq> ''updated_at''"
  shows "map_of (dropUndefined (syncData e2 mid m)) col = map_of (dropUndefined (syncData e1 mid m)) col"
proof -
  have "map_of (syncData e2 mid m) col = map_of (syncData e1 mid m) col"
    using assms by (simp add: syncData_def)
  then show ?thesis
    by (simp add: dropUndefined_def map_of_filter_defined[OF distinct_syncData])
qed

lemma upsertRows_twice_col:
  assumes "map_of (dropUndefined obj2) col = map_of (dropUndefined obj1) col"
  shows "map_option (\<lambda>r. r col) (map_of (upsertRows keycol k obj2 (upsertRows keycol k obj1 t)) k')
       = map_option (\<lambda>r. r col) (map_of (upsertRows keycol k obj1 t) k')"
  using assms
  by (auto simp: map_of_upsertRows mergeRow_def newRow_def split: option.splits)

lemma upsertRows_twice_keys:
  "map fst (upsertRows keycol k obj2 (upsertRows keycol k obj1 t)) = map fst (upsertRows keycol k obj1 t)"
  by (simp add: keys_upsertRows)

lemma mergeRow_idem: "mergeRow (mergeRow r obj) obj = mergeRow r obj"
  by (auto simp: mergeRow_def fun_eq_iff split: option.splits)

lemma upsertRows_idem: "upsertRows keycol k obj (upsertRows keycol k obj t) = upsertRows keycol k obj t"
proof (induction t)
  case Nil
  show ?case by (auto simp: mergeRow_def newRow_def fun_eq_iff split: option.splits)
next
  case (Cons a t)
  then show ?case
    by (cases a) (auto simp: mergeRow_def fun_eq_iff split: option.splits)
qed

lemma upsertRows_same_clock:
  assumes "Date_now e2 = Date_now e1"
  shows "syncData e2 mid m = syncData e1 mid m"
  using assms by (simp add: syncData_def)

lemma redelivery:
  assumes v1: "verifiedDelivery e1 req body ev" and v2: "verifiedDelivery e2 req body ev"
    and r: "ev \<in> set relevantEvents"
    and ok1: "\<forall>n. \<not> store_fails e1 n" and ok2: "\<forall>n. \<not> store_fails e2 n"
  shows "map fst (zoom_meetings (snd (zoomWebhook e2 req (snd (zoomWebhook e1 req w)))))
           = map fst (zoom_meetings (snd (zoomWebhook e1 req w)))
     \<and> (\<forall>k col. col \<noteq> ''updated_at'' \<longrightarrow>
           map_option (\<lambda>r. r col) (map_of (zoom_meetings (snd (zoomWebhook e2 req (snd (zoomWebhook e1 req w))))) k)
           = map_option (\<lambda>r. r col) (map_of (zoom_meetings (snd (zoomWebhook e1 req w))) k))
     \<and> (ev = ''meeting.deleted'' \<or> Date_now e2 = Date_now e1 \<longrightarrow>
           zoom_meetings (snd (zoomWebhook e2 req (snd (zoomWebhook e1 req w))))
           = zoom_meetings (snd (zoomWebhook e1 req w)))"
proof (cases "nullish (get (get (get body ''payload'') ''object'') ''id'')")
  case True
  then show ?thesis
    by (simp add: webhook_meeting_table[OF v1 r] webhook_meeting_table[OF v2 r] meetingEvent_malformed)
next
  case False
  define m where "m = get (get body ''payload'') ''object''"
  then have m: "get (get body ''payload'') ''object'' = m" by simp
  from False m have i: "\<not> nullish (get m ''id'')" by simp
  show ?thesis
  proof (cases "ev = ''meeting.deleted''")
    case True
    then show ?thesis
      using ok1 ok2
      by (simp add: webhook_meeting_table[OF v1 r] webhook_meeting_table[OF v2 r]
          meetingEvent_table[OF m i] deleteRows_idem)
  next
    case False
    let ?mid = "js_String (get m ''id'')"
    define t1 where "t1 = upsertRows ''meeting_id'' ?mid (syncData e1 ?mid m) (zoom_meetings w)"
    define t2 where "t2 = upsertRows ''meeting_id'' ?mid (syncData e2 ?mid m) t1"
    have w1: "zoom_meetings (snd (zoomWebhook e1 req w)) = t1"
      using ok1 False
      by (simp add: webhook_meeting_table[OF v1 r] meetingEvent_table[OF m i] t1_def)
    have w2: "zoom_meetings (snd (zoomWebhook e2 req (snd (zoomWebhook e1 req w)))) = t2"
      using ok2 False
      by (simp add: webhook_meeting_table[OF v2 r] meetingEvent_table[OF m i] t2_def w1)
    have a: "map fst t2 = map fst t1"
      unfolding t1_def t2_def by (rule upsertRows_twice_keys)
    have b: "\<forall>k col. col \<noteq> ''updated_at'' \<longrightarrow>
        map_option (\<lambda>r. r col) (map_of t2 k) = map_option (\<lambda>r. r col) (map_of t1 k)"
      unfolding t1_def t2_def by (intro allI impI upsertRows_twice_col syncData_agree)
    have c: "Date_now e2 = Date_now e1 \<longrightarrow> t2 = t1"
      unfolding t1_def t2_def
      by (auto simp: upsertRows_same_clock[of e2 e1] upsertRows_idem)
    from a b c False show ?thesis by (simp add: w1 w2)
  qed
qed

text \<open>
  C8 as stated fails on the upsert path: the example \<open>meeting.updated\<close>, delivered and
  verified at the clock's 1000 s and again one minute later, leaves \<open>updated_at\<close> at the
  time of the second delivery, so the table after two applications is not the table after
  one.
\<close>

theorem redelivery_changes_updated_at_counterexample:
  "verifiedDelivery exampleEnv (signedRequest ''1000'' rawMeetingUpdated)
     (eventBody ''meeting.updated'' [(''id'', JNum 123), (''duration'', JNum 45)]) ''meeting.updated''
   \<and> verifiedDelivery laterEnv (signedRequest ''1000'' rawMeetingUpdated)
     (eventBody ''meeting.updated'' [(''id'', JNum 123), (''duration'', JNum 45)]) ''meeting.updated''
   \<and> map_option (\<lambda>r. r ''updated_at'')
        (map_of (zoom_meetings (snd (zoomWebhook exampleEnv (signedRequest ''1000'' rawMeetingUpdated) exampleWorld))) ''123'')
       = Some (JNum 1000000)
   \<and> map_option (\<lambda>r. r ''updated_at'')
        (map_of (zoom_meetings (snd (zoomWebhook laterEnv (signedRequest ''1000'' rawMeetingUpdated)
           (snd (zoomWebhook exampleEnv (signedRequest ''1000'' rawMeetingUpdated) exampleWorld))))) ''123'')
       = Some (JNum 1060000)
   \<and> zoom_meetings (snd (zoomWebhook laterEnv (signedRequest ''1000'' rawMeetingUpdated)
           (snd (zoomWebhook exampleEnv (signedRequest ''1000'' rawMeetingUpdated) exampleWorld))))
       \<noteq> zoom_meetings (snd (zoomWebhook exampleEnv (signedRequest ''1000'' rawMeetingUpdated) exampleWorld))"
proof -
  let ?body = "eventBody ''meeting.updated'' [(''id'', JNum 123), (''duration'', JNum 45)]"
  let ?req = "signedRequest ''1000'' rawMeetingUpdated"
  let ?m = "JObj [(''id'', JNum 123), (''duration'', JNum 45)]"
  have m: "get (get ?body ''payload'') ''object'' = ?m" by (simp add: eventBody_def)
  have i: "\<not> nullish (get ?m ''id'')" by (simp add: nullish_def)
  have r: "''meeting.updated'' \<in> set relevantEvents" by (simp add: relevantEvents_def)
  have f1: "\<And>n. \<not> store_fails exampleEnv n" by (simp add: exampleEnv_def)
  have f2: "\<And>n. \<not> store_fails laterEnv n" by (simp add: laterEnv_def exampleEnv_def)
  have d1: "Date_now exampleEnv = 1000000" by (simp add: exampleEnv_def)
  have d2: "Date_now laterEnv = 1060000" by (simp add: laterEnv_def)
  have u: "map_of (dropUndefined (syncData e mid ?m)) ''updated_at'' = Some (JNum (Date_now e))" for e mid
    by (simp add: dropUndefined_def map_of_filter_defined[OF distinct_syncData]) (simp add: syncData_def)
  have 1: "map_option (\<lambda>r. r ''updated_at'')
        (map_of (zoom_meetings (snd (zoomWebhook exampleEnv ?req exampleWorld))) ''123'') = Some (JNum 1000000)"
    by (simp add: webhook_meeting_table[OF verified_meetingUpdated r] meetingEvent_table[OF m i] f1
        map_of_upsertRows numToString_123 mergeRow_def newRow_def u d1 split: option.splits)
  have 2: "map_option (\<lambda>r. r ''updated_at'')
        (map_of (zoom_meetings (snd (zoomWebhook laterEnv ?req (snd (zoomWebhook exampleEnv ?req exampleWorld))))) ''123'')
       = Some (JNum 1060000)"
    by (simp add: webhook_meeting_table[OF verified_meetingUpdated_later r] meetingEvent_table[OF m i] f2
        map_of_upsertRows numToString_123 mergeRow_def newRow_def u d2 split: option.splits)
  from 1 2 have 3: "zoom_meetings (snd (zoomWebhook laterEnv ?req (snd (zoomWebhook exampleEnv ?req exampleWorld))))
       \<noteq> zoom_meetings (snd (zoomWebhook exampleEnv ?req exampleWorld))"
    by auto
  from verified_meetingUpdated verified_meetingUpdated_later 1 2 3 show ?thesis by blast
qed


text \<open>
  C8, amended. Applying the same verified meeting event twice, every store call succeeding,
  leaves \<^verbatim>\<open>zoom_meetings\<close> with the same keys in the same order and the same value in every
  column other than \<open>updated_at\<close> as applying it once; \<open>updated_at\<close> holds the time of the last
  application. On the delete path, and when both applications read the same clock, the
  table is identical.
\<close>

theorem redelivery_idempotent_up_to_updated_at:
  "verifiedDelivery e1 req body ev \<and> verifiedDelivery e2 req body ev \<and> ev \<in> set relevantEvents
     \<and> (\<forall>n. \<not> store_fails e1 n) \<and> (\<forall>n. \<not> store_fails e2 n)
   \<longrightarrow> map fst (zoom_meetings (snd (zoomWebhook e2 req (snd (zoomWebhook e1 req w)))))
           = map fst (zoom_meetings (snd (zoomWebhook e1 req w)))
     \<and> (\<forall>k col. col \<noteq> ''updated_at'' \<longrightarrow>
           map_option (\<lambda>r. r col) (map_of (zoom_meetings (snd (zoomWebhook e2 req (snd (zoomWebhook e1 req w))))) k)
           = map_option (\<lambda>r. r col) (map_of (zoom_meetings (snd (zoomWebhook e1 req w))) k))
     \<and> (ev = ''meeting.deleted'' \<or> Date_now e2 = Date_now e1 \<longrightarrow>
           zoom_meetings (snd (zoomWebhook e2 req (snd (zoomWebhook e1 req w))))
           = zoom_meetings (snd (zoomWebhook e1 req w)))"
  using redelivery[of e1 req body ev e2 w] by blast

text \<open>The example \<open>meeting.updated\<close> delivered twice a minute apart keeps the duration and the
  keys; the example \<open>meeting.deleted\<close> delivered twice leaves the same table.\<close>

theorem redelivery_idempotent_up_to_updated_at_witness:
  "map_option (\<lambda>r. r ''duration'')
      (map_of (zoom_meetings (snd (zoomWebhook laterEnv (signedRequest ''1000'' rawMeetingUpdated)
         (snd (zoomWebhook exampleEnv (signedRequest ''1000'' rawMeetingUpdated) exampleWorld))))) ''123'')
     = map_option (\<lambda>r. r ''duration'')
      (map_of (zoom_meetings (snd (zoomWebhook exampleEnv (signedRequest ''1000'' rawMeetingUpdated) exampleWorld))) ''123'')
   \<and> zoom_meetings (snd (zoomWebhook exampleEnv (signedRequest ''1000'' rawMeetingDeleted)
         (snd (zoomWebhook exampleEnv (signedRequest ''1000'' rawMeetingDeleted) exampleWorld))))
     = zoom_meetings (snd (zoomWebhook exampleEnv (signedRequest ''1000'' rawMeetingDeleted) exampleWorld))"
proof -
  have f1: "\<forall>n. \<not> store_fails exampleEnv n" by (simp add: exampleEnv_def)
  have f2: "\<forall>n. \<not> store_fails laterEnv n" by (simp add: laterEnv_def exampleEnv_def)
  have r: "''meeting.updated'' \<in> set relevantEvents" "''meeting.deleted'' \<in> set relevantEvents"
    by (simp_all add: relevantEvents_def)
  have 1: "map_option (\<lambda>r. r ''duration'')
      (map_of (zoom_meetings (snd (zoomWebhook laterEnv (signedRequest ''1000'' rawMeetingUpdated)
         (snd (zoomWebhook exampleEnv (signedRequest ''1000'' rawMeetingUpdated) exampleWorld))))) ''123'')
     = map_option (\<lambda>r. r ''duration'')
      (map_of (zoom_meetings (snd (zoomWebhook exampleEnv (signedRequest ''1000'' rawMeetingUpdated) exampleWorld))) ''123'')"
    using redelivery_idempotent_up_to_updated_at[of exampleEnv "signedRequest ''1000'' rawMeetingUpdated"
        "eventBody ''meeting.updated'' [(''id'', JNum 123), (''duration'', JNum 45)]" "''meeting.updated''"
        laterEnv exampleWorld]
      verified_meetingUpdated verified_meetingUpdated_later f1 f2 r
    by simp
  let ?body = "eventBody ''meeting.deleted'' [(''id'', JNum 123)]"
  have v: "verifiedDelivery exampleEnv (signedRequest ''1000'' rawMeetingDeleted) ?body ''meeting.deleted''"
    by (simp add: verify_eval)
  have 2: "zoom_meetings (snd (zoomWebhook exampleEnv (signedRequest ''1000'' rawMeetingDeleted)
         (snd (zoomWebhook exampleEnv (signedRequest ''1000'' rawMeetingDeleted) exampleWorld))))
     = zoom_meetings (snd (zoomWebhook exampleEnv (signedRequest ''1000'' rawMeetingDeleted) exampleWorld))"
    using redelivery_idempotent_up_to_updated_at[of exampleEnv "signedRequest ''1000'' rawMeetingDeleted"
        ?body "''meeting.deleted''" exampleEnv exampleWorld]
      v f1 r
    by simp
  from 1 2 show ?thesis by blast
qed

section \<open>The refresh margin\<close>

lemma refresh_not_needed:
  assumes "zoom_tokens w = Some t" "\<not> store_fails e (length (calls w))"
    "expires_at t - Date_now e > 300000"
  shows "refreshZoomToken e w = (Inr (access_token t), logCall (StoreCall ''zoom_tokens'' ''select'') w)"
  using assms
  by (simp add: refreshZoomToken_def selectTokens_def failsNow_def logCall_def Let_def)

lemma refresh_no_credential:
  assumes "zoom_tokens w = None \<or> store_fails e (length (calls w))"
  shows "refreshZoomToken e w =
    (Inl (Error ''No Zoom tokens found''), logCall (StoreCall ''zoom_tokens'' ''select'') w)"
  using assms
  by (auto simp add: refreshZoomToken_def selectTokens_def failsNow_def logCall_def Let_def)

lemma refresh_first_call:
  "take 1 (newCalls w (snd (refreshZoomToken e w))) = [StoreCall ''zoom_tokens'' ''select'']"
  by (auto simp add: refreshZoomToken_def selectTokens_def updateTokens_def failsNow_def logCall_def
      Let_def newCalls_def split: option.splits fetched.splits sum.splits)

lemma refresh_needed_calls:
  assumes "zoom_tokens w = Some t" "\<not> store_fails e (length (calls w))"
    "expires_at t - Date_now e \<le> 300000"
  shows "length (filter (\<lambda>c. c = tokenEndpoint) (newCalls w (snd (refreshZoomToken e w)))) = 1"
  using assms
  by (auto simp add: refreshZoomToken_def selectTokens_def updateTokens_def failsNow_def logCall_def
      Let_def newCalls_def tokenEndpoint_def split: option.splits fetched.splits sum.splits)

lemma refresh_needed_persisted:
  assumes "zoom_tokens w = Some t" "\<not> store_fails e (length (calls w))"
    "expires_at t - Date_now e \<le> 300000"
    "zoom_oauth_token e (refresh_token t) = Ok tj" "newExpiry e tj = Inr x"
    "\<not> store_fails e (length (calls w) + 2)" "new_access_token tj \<noteq> JUndefined"
  shows "fst (refreshZoomToken e w) = Inr (new_access_token tj)
     \<and> map_option access_token (zoom_tokens (snd (refreshZoomToken e w))) = Some (new_access_token tj)
     \<and> map_option expires_at (zoom_tokens (snd (refreshZoomToken e w))) = Some x"
  using assms
  by (simp add: refreshZoomToken_def selectTokens_def updateTokens_def failsNow_def logCall_def Let_def)

lemma refresh_rejected:
  assumes "zoom_tokens w = Some t" "\<not> store_fails e (length (calls w))"
    "expires_at t - Date_now e \<le> 300000"
    "zoom_oauth_token e (refresh_token t) = NotOk text"
  shows "fst (refreshZoomToken e w) = Inl (Error (''Failed to refresh token: '' @ text))
     \<and> zoom_tokens (snd (refreshZoomToken e w)) = zoom_tokens w"
  using assms
  by (simp add: refreshZoomToken_def selectTokens_def updateTokens_def failsNow_def logCall_def Let_def)

text \<open>The refresh step of zoom-users returns the new token in the same way when its
  update fails.\<close>

lemma refreshIfNeeded_unpersisted:
  assumes "zoom_tokens w = Some t" "Date_now e div 1000 * 1000 \<ge> expires_at t - 300 * 1000"
    "zoom_oauth_token e (refresh_token t) = Ok tj" "newExpiry e tj = Inr x"
    "store_fails e (length (calls w) + 1)"
  shows "fst (refreshIfNeeded e t w) = Inr (new_access_token tj)
     \<and> zoom_tokens (snd (refreshIfNeeded e t w)) = zoom_tokens w"
  using assms
  by (simp add: refreshIfNeeded_def updateTokens_def failsNow_def logCall_def Let_def)

text \<open>
  C3 at the failing input: the stored credential expires in 100 s, the provider accepts the
  refresh, and the update of \<^verbatim>\<open>zoom_tokens\<close> fails. \<^const>\<open>refreshZoomToken\<close> makes its one
  refresh call and returns the new access token, while the store still holds the old one.
\<close>

theorem refresh_returns_unpersisted_token:
  "map_option (\<lambda>t. expires_at t - Date_now (failingEnv 2) \<le> 300000) (zoom_tokens exampleWorld) = Some True
   \<and> fst (refreshZoomToken (failingEnv 2) exampleWorld) = Inr (JStr ''new'')
   \<and> map_option access_token (zoom_tokens (snd (refreshZoomToken (failingEnv 2) exampleWorld))) = Some (JStr ''old'')
   \<and> filter (\<lambda>c. c = tokenEndpoint) (calls (snd (refreshZoomToken (failingEnv 2) exampleWorld))) = [tokenEndpoint]"
  by (simp add: refreshZoomToken_def selectTokens_def updateTokens_def newExpiry_def failsNow_def logCall_def
      Let_def failingEnv_def exampleEnv_def exampleWorld_def tokenEndpoint_def)

section \<open>cron-trigger: the action is looked at last\<close>

lemma replaceFirst_Bearer: "replaceFirst ''Bearer '' [] ''Bearer cron'' = ''cron''"
  by simp

lemma cron_unknown_action:
  assumes "req_method req \<noteq> ''OPTIONS''"
    "CRON_SECRET e = Some secret" "secret \<noteq> []"
    "req_headers req ''authorization'' = Some h" "replaceFirst ''Bearer '' [] h = secret"
    "(case JSON_parse e (req_text req) of None \<Rightarrow> JObj [] | Some b \<Rightarrow> b) = body" "\<not> nullish body"
    "get body ''action'' \<notin> set (map JStr validActions)"
  shows "cronTrigger e req w =
    (case refreshZoomToken e w of
       (Inl err, w1) \<Rightarrow> Some (jsonResponse 500 [(''error'', JStr (errorMessage err))], consoleError ''Error:'' w1)
     | (Inr accessToken, w1) \<Rightarrow>
         Some (jsonResponse 400 [(''error'', JStr ''Unknown action''), (''valid'', JArr (map JStr validActions))], w1))"
  using assms
  by (auto simp add: cronTrigger_def cronTry_def cronSwitch_def falsy_def readProp_def validActions_def Let_def
      split: sum.splits prod.splits option.splits)

lemma refresh_trace:
  "\<exists>rest. calls (snd (refreshZoomToken e w)) = calls w @ StoreCall ''zoom_tokens'' ''select'' # rest"
  by (auto simp add: refreshZoomToken_def selectTokens_def updateTokens_def failsNow_def logCall_def
      Let_def split: option.splits fetched.splits sum.splits)

text \<open>What a call of \<^const>\<open>refreshZoomToken\<close> adds to the trace and leaves in the store.\<close>

lemma refresh_needed_trace:
  assumes "zoom_tokens w = Some t" "\<not> store_fails e (length (calls w))"
    "expires_at t - Date_now e \<le> 300000"
    "zoom_oauth_token e (refresh_token t) = Ok tj" "newExpiry e tj = Inr x"
  shows "fst (refreshZoomToken e w) = Inr (new_access_token tj)"
    and "newCalls w (snd (refreshZoomToken e w)) =
       [StoreCall ''zoom_tokens'' ''select'', tokenEndpoint, StoreCall ''zoom_tokens'' ''update'']"
    and "zoom_tokens (snd (refreshZoomToken e w)) =
       (if store_fails e (length (calls w) + 2) then Some t
        else Some \<lparr>access_token = (if new_access_token tj = JUndefined then access_token t
                                    else new_access_token tj),
                   refresh_token = (if new_refresh_token tj = JUndefined then refresh_token t
                                     else new_refresh_token tj),
                   expires_at = x\<rparr>)"
  using assms
  by (simp_all add: refreshZoomToken_def selectTokens_def updateTokens_def failsNow_def logCall_def
      newCalls_def Let_def)

lemma refresh_not_needed_trace:
  assumes "zoom_tokens w = Some t" "\<not> store_fails e (length (calls w))"
    "expires_at t - Date_now e > 300000"
  shows "newCalls w (snd (refreshZoomToken e w)) = [StoreCall ''zoom_tokens'' ''select'']"
    and "zoom_tokens (snd (refreshZoomToken e w)) = zoom_tokens w"
  using assms
  by (simp_all add: refreshZoomToken_def selectTokens_def failsNow_def logCall_def newCalls_def Let_def)

lemma refresh_other_tables:
  "zoom_users (snd (refreshZoomToken e w)) = zoom_users w
   \<and> zoom_meetings (snd (refreshZoomToken e w)) = zoom_meetings w
   \<and> zoom_events (snd (refreshZoomToken e w)) = zoom_events w"
  by (auto simp add: refreshZoomToken_def selectTokens_def updateTokens_def failsNow_def logCall_def
      Let_def split: option.splits fetched.splits sum.splits)

lemma cron_unknown_action_facts:
  assumes "req_method req \<noteq> ''OPTIONS''"
    "CRON_SECRET e = Some secret" "secret \<noteq> []"
    "req_headers req ''authorization'' = Some h" "replaceFirst ''Bearer '' [] h = secret"
    "(case JSON_parse e (req_text req) of None \<Rightarrow> JObj [] | Some b \<Rightarrow> b) = body" "\<not> nullish body"
    "get body ''action'' \<notin> set (map JStr validActions)"
  shows "\<exists>resp w'. cronTrigger e req w = Some (resp, w')
     \<and> take 1 (newCalls w w') = [StoreCall ''zoom_tokens'' ''select'']
     \<and> (zoom_tokens w = None \<longrightarrow> resp = jsonResponse 500 [(''error'', JStr ''No Zoom tokens found'')])
     \<and> (\<forall>t. zoom_tokens w = Some t \<and> \<not> store_fails e (length (calls w))
            \<and> expires_at t - Date_now e \<le> 300000
          \<longrightarrow> length (filter (\<lambda>c. c = tokenEndpoint) (newCalls w w')) = 1)
     \<and> (\<forall>t. zoom_tokens w = Some t \<and> \<not> store_fails e (length (calls w))
            \<and> expires_at t - Date_now e > 300000
          \<longrightarrow> resp = jsonResponse 400 [(''error'', JStr ''Unknown action''),
                                       (''valid'', JArr (map JStr validActions))])
     \<and> (\<forall>t. zoom_tokens w = Some t \<and> \<not> store_fails e (length (calls w))
            \<and> expires_at t - Date_now e > 300000
          \<longrightarrow> newCalls w w' = [StoreCall ''zoom_tokens'' ''select''] \<and> zoom_tokens w' = zoom_tokens w)
     \<and> (\<forall>t tj x. zoom_tokens w = Some t \<and> \<not> store_fails e (length (calls w))
            \<and> expires_at t - Date_now e \<le> 300000
            \<and> zoom_oauth_token e (refresh_token t) = Ok tj \<and> newExpiry e tj = Inr x
          \<longrightarrow> newCalls w w' = [StoreCall ''zoom_tokens'' ''select'', tokenEndpoint,
                                 StoreCall ''zoom_tokens'' ''update'']
              \<and> zoom_tokens w' =
                  (if store_fails e (length (calls w) + 2) then Some t
                   else Some \<lparr>access_token = (if new_access_token tj = JUndefined then access_token t
                                               else new_access_token tj),
                              refresh_token = (if new_refresh_token tj = JUndefined then refresh_token t
                                                else new_refresh_token tj),
                              expires_at = x\<rparr>)
              \<and> resp = jsonResponse 400 [(''error'', JStr ''Unknown action''),
                                           (''valid'', JArr (map JStr validActions))])
     \<and> (\<forall>t msg. zoom_tokens w = Some t \<and> \<not> store_fails e (length (calls w))
            \<and> expires_at t - Date_now e \<le> 300000
            \<and> zoom_oauth_token e (refresh_token t) = NotOk msg
          \<longrightarrow> resp = jsonResponse 500 [(''error'', JStr (''Failed to refresh token: '' @ msg))]
              \<and> zoom_tokens w' = zoom_tokens w)
     \<and> zoom_users w' = zoom_users w \<and> zoom_meetings w' = zoom_meetings w \<and> zoom_events w' = zoom_events w"
proof -
  note eq = cron_unknown_action[OF assms, of w]
  obtain a w1 where r: "refreshZoomToken e w = (a, w1)" by (cases "refreshZoomToken e w")
  obtain rest where t: "calls w1 = calls w @ StoreCall ''zoom_tokens'' ''select'' # rest"
    using refresh_trace[of e w] r by auto
  have none: "zoom_tokens w = None \<Longrightarrow> a = Inl (Error ''No Zoom tokens found'')"
    using refresh_no_credential[of w e] r by simp
  have cnt: "zoom_tokens w = Some t \<Longrightarrow> \<not> store_fails e (length (calls w)) \<Longrightarrow>
      expires_at t - Date_now e \<le> 300000 \<Longrightarrow>
      length (filter (\<lambda>c. c = tokenEndpoint) (newCalls w w1)) = 1" for t
    using refresh_needed_calls[of w t e] r by simp
  have fresh: "zoom_tokens w = Some t \<Longrightarrow> \<not> store_fails e (length (calls w)) \<Longrightarrow>
      expires_at t - Date_now e > 300000 \<Longrightarrow>
      a = Inr (access_token t) \<and> newCalls w w1 = [StoreCall ''zoom_tokens'' ''select'']
      \<and> zoom_tokens w1 = zoom_tokens w" for t
    using refresh_not_needed[of w t e] refresh_not_needed_trace[of w t e] r by simp
  have upd: "zoom_tokens w = Some t \<Longrightarrow> \<not> store_fails e (length (calls w)) \<Longrightarrow>
      expires_at t - Date_now e \<le> 300000 \<Longrightarrow>
      zoom_oauth_token e (refresh_token t) = Ok tj \<Longrightarrow> newExpiry e tj = Inr x \<Longrightarrow>
      a = Inr (new_access_token tj)
      \<and> newCalls w w1 = [StoreCall ''zoom_tokens'' ''select'', tokenEndpoint,
                          StoreCall ''zoom_tokens'' ''update'']
      \<and> zoom_tokens w1 =
          (if store_fails e (length (calls w) + 2) then Some t
           else Some \<lparr>access_token = (if new_access_token tj = JUndefined then access_token t
                                       else new_access_token tj),
                      refresh_token = (if new_refresh_token tj = JUndefined then refresh_token t
                                        else new_refresh_token tj),
                      expires_at = x\<rparr>)" for t tj x
    using refresh_needed_trace[of w t e tj x] r by simp
  have rej: "zoom_tokens w = Some t \<Longrightarrow> \<not> store_fails e (length (calls w)) \<Longrightarrow>
      expires_at t - Date_now e \<le> 300000 \<Longrightarrow>
      zoom_oauth_token e (refresh_token t) = NotOk msg \<Longrightarrow>
      a = Inl (Error (''Failed to refresh token: '' @ msg)) \<and> zoom_tokens w1 = zoom_tokens w" for t msg
    using refresh_rejected[of w t e msg] r by simp
  have others: "zoom_users w1 = zoom_users w \<and> zoom_meetings w1 = zoom_meetings w
      \<and> zoom_events w1 = zoom_events w"
    using refresh_other_tables[of e w] r by simp
  show ?thesis
  proof (cases a)
    case (Inl err)
    with eq r have c: "cronTrigger e req w =
        Some (jsonResponse 500 [(''error'', JStr (errorMessage err))], consoleError ''Error:'' w1)"
      by simp
    have n: "newCalls w (consoleError ''Error:'' w1) = newCalls w w1 @ [ConsoleError ''Error:'']"
      using t by (simp add: newCalls_def consoleError_def logCall_def)
    from t have h: "take 1 (newCalls w w1 @ [ConsoleError ''Error:'']) = [StoreCall ''zoom_tokens'' ''select'']"
      by (simp add: newCalls_def)
    have k: "zoom_tokens (consoleError ''Error:'' w1) = zoom_tokens w1"
      "zoom_users (consoleError ''Error:'' w1) = zoom_users w1"
      "zoom_meetings (consoleError ''Error:'' w1) = zoom_meetings w1"
      "zoom_events (consoleError ''Error:'' w1) = zoom_events w1"
      by (simp_all add: consoleError_def logCall_def)
    have nb: "\<not> (zoom_tokens w = Some t \<and> \<not> store_fails e (length (calls w))
            \<and> expires_at t - Date_now e > 300000)" for t
      using fresh[of t] Inl by auto
    have nu: "\<not> (zoom_tokens w = Some t \<and> \<not> store_fails e (length (calls w))
            \<and> expires_at t - Date_now e \<le> 300000
            \<and> zoom_oauth_token e (refresh_token t) = Ok tj \<and> newExpiry e tj = Inr x)" for t tj x
      using upd[of t tj x] Inl by auto
    have m: "zoom_tokens w = Some t \<and> \<not> store_fails e (length (calls w))
            \<and> expires_at t - Date_now e \<le> 300000
            \<and> zoom_oauth_token e (refresh_token t) = NotOk msg
          \<Longrightarrow> errorMessage err = ''Failed to refresh token: '' @ msg \<and> zoom_tokens w1 = zoom_tokens w"
      for t msg
      using rej[of t msg] Inl by (auto simp: errorMessage_def)
    have m0: "zoom_tokens w = None \<Longrightarrow> errorMessage err = ''No Zoom tokens found''"
      using none Inl by (auto simp: errorMessage_def)
    have c1: "length (filter (\<lambda>c. c = tokenEndpoint) (newCalls w w1 @ [ConsoleError ''Error:''])) =
        length (filter (\<lambda>c. c = tokenEndpoint) (newCalls w w1))"
      by (simp add: tokenEndpoint_def)
    show ?thesis
      apply (rule exI[of _ "jsonResponse 500 [(''error'', JStr (errorMessage err))]"])
      apply (rule exI[of _ "consoleError ''Error:'' w1"])
      apply (intro conjI allI impI)
      subgoal using c by simp
      subgoal using n h by simp
      subgoal using m0 by simp
      subgoal for t using cnt[of t] n c1 by simp
      subgoal for t using nb[of t] by simp
      subgoal for t using nb[of t] by simp
      subgoal for t using nb[of t] by simp
      subgoal for t tj x using nu[of t tj x] by simp
      subgoal for t tj x using nu[of t tj x] by simp
      subgoal for t tj x using nu[of t tj x] by simp
      subgoal for t msg using m[of t msg] by simp
      subgoal for t msg using m[of t msg] k by simp
      subgoal using k others by simp
      subgoal using k others by simp
      subgoal using k others by simp
      done
  next
    case (Inr tok)
    with eq r have c: "cronTrigger e req w =
        Some (jsonResponse 400 [(''error'', JStr ''Unknown action''), (''valid'', JArr (map JStr validActions))], w1)"
      by simp
    from t have h: "take 1 (newCalls w w1) = [StoreCall ''zoom_tokens'' ''select'']"
      by (simp add: newCalls_def)
    have nr: "\<not> (zoom_tokens w = Some t \<and> \<not> store_fails e (length (calls w))
            \<and> expires_at t - Date_now e \<le> 300000
            \<and> zoom_oauth_token e (refresh_token t) = NotOk msg)" for t msg
      using rej[of t msg] Inr by auto
    have nn: "zoom_tokens w \<noteq> None"
      using none Inr by auto
    show ?thesis
      apply (rule exI[of _ "jsonResponse 400 [(''error'', JStr ''Unknown action''),
                                               (''valid'', JArr (map JStr validActions))]"])
      apply (rule exI[of _ w1])
      apply (intro conjI allI impI)
      subgoal using c by simp
      subgoal using h by simp
      subgoal using nn by simp
      subgoal for t using cnt[of t] by simp
      subgoal by simp
      subgoal for t using fresh[of t] by simp
      subgoal for t using fresh[of t] by simp
      subgoal for t tj x using upd[of t tj x] by simp
      subgoal for t tj x using upd[of t tj x] by simp
      subgoal by simp
      subgoal for t msg using nr[of t msg] by simp
      subgoal for t msg using nr[of t msg] by simp
      subgoal using others by simp
      subgoal using others by simp
      subgoal using others by simp
      done
  qed
qed

text \<open>
  C10. The cron-trigger handler reads the credential, and refreshes it when it is within the
  margin, before it looks at the action. For every authorised request whose action is none
  of the four known ones: the first store call is the read of \<^verbatim>\<open>zoom_tokens\<close>; when no
  credential row exists the answer is 500 \<open>No Zoom tokens found\<close>, not 400; when the stored
  credential is more than five minutes from expiry the read is the only call, the stored
  credential stays as it is and the answer is the 400 \<open>Unknown action\<close>; when it is within
  five minutes of expiry exactly one refresh call is made, and once the provider has
  answered it the calls are the read, the refresh call and the update of \<^verbatim>\<open>zoom_tokens\<close>,
  the stored credential is the new one (unless that update fails, which leaves the old one)
  and the answer is again the 400; when the provider refuses the refresh the answer is 500
  and the stored credential stays. The other tables are never touched.
\<close>

theorem cron_credential_before_action:
  "req_method req \<noteq> ''OPTIONS'' \<and> CRON_SECRET e = Some secret \<and> secret \<noteq> []
     \<and> req_headers req ''authorization'' = Some h \<and> replaceFirst ''Bearer '' [] h = secret
     \<and> (case JSON_parse e (req_text req) of None \<Rightarrow> JObj [] | Some b \<Rightarrow> b) = body \<and> \<not> nullish body
     \<and> get body ''action'' \<notin> set (map JStr validActions)
   \<longrightarrow> (\<exists>resp w'. cronTrigger e req w = Some (resp, w')
     \<and> take 1 (newCalls w w') = [StoreCall ''zoom_tokens'' ''select'']
     \<and> (zoom_tokens w = None \<longrightarrow> resp = jsonResponse 500 [(''error'', JStr ''No Zoom tokens found'')])
     \<and> (\<forall>t. zoom_tokens w = Some t \<and> \<not> store_fails e (length (calls w))
            \<and> expires_at t - Date_now e \<le> 300000
          \<longrightarrow> length (filter (\<lambda>c. c = tokenEndpoint) (newCalls w w')) = 1)
     \<and> (\<forall>t. zoom_tokens w = Some t \<and> \<not> store_fails e (length (calls w))
            \<and> expires_at t - Date_now e > 300000
          \<longrightarrow> resp = jsonResponse 400 [(''error'', JStr ''Unknown action''),
                                       (''valid'', JArr (map JStr validActions))])
     \<and> (\<forall>t. zoom_tokens w = Some t \<and> \<not> store_fails e (length (calls w))
            \<and> expires_at t - Date_now e > 300000
          \<longrightarrow> newCalls w w' = [StoreCall ''zoom_tokens'' ''select''] \<and> zoom_tokens w' = zoom_tokens w)
     \<and> (\<forall>t tj x. zoom_tokens w = Some t \<and> \<not> store_fails e (length (calls w))
            \<and> expires_at t - Date_now e \<le> 300000
            \<and> zoom_oauth_token e (refresh_token t) = Ok tj \<and> newExpiry e tj = Inr x
          \<longrightarrow> newCalls w w' = [StoreCall ''zoom_tokens'' ''select'', tokenEndpoint,
                                 StoreCall ''zoom_tokens'' ''update'']
              \<and> zoom_tokens w' =
                  (if store_fails e (length (calls w) + 2) then Some t
                   else Some \<lparr>access_token = (if new_access_token tj = JUndefined then access_token t
                                               else new_access_token tj),
                              refresh_token = (if new_refresh_token tj = JUndefined then refresh_token t
                                                else new_refresh_token tj),
                              expires_at = x\<rparr>)
              \<and> resp = jsonResponse 400 [(''error'', JStr ''Unknown action''),
                                           (''valid'', JArr (map JStr validActions))])
     \<and> (\<forall>t msg. zoom_tokens w = Some t \<and> \<not> store_fails e (length (calls w))
            \<and> expires_at t - Date_now e \<le> 300000
            \<and> zoom_oauth_token e (refresh_token t) = NotOk msg
          \<longrightarrow> resp = jsonResponse 500 [(''error'', JStr (''Failed to refresh token: '' @ msg))]
              \<and> zoom_tokens w' = zoom_tokens w)
     \<and> zoom_users w' = zoom_users w \<and> zoom_meetings w' = zoom_meetings w \<and> zoom_events w' = zoom_events w)"
  by (intro impI, elim conjE, rule cron_unknown_action_facts) assumption+

text \<open>An authorised request with the action \<open>sync-everything\<close>: against a store without
  credential it is answered 500 after the read; against the example store, whose credential
  expires in 100 s, it is answered 400 after the read, the refresh call and the update, and
  the store then holds the new credential, which expires 3600 s after the clock's 1000 s.\<close>

theorem cron_credential_before_action_witness:
  "(\<exists>w'. cronTrigger exampleEnv
            (cronRequest (''{'' @ quoted ''action'' @ '':'' @ quoted ''sync-everything'' @ ''}''))
            (exampleWorld\<lparr>zoom_tokens := None\<rparr>)
          = Some (\<lparr>status = 500, content = Json [(''error'', JStr ''No Zoom tokens found'')]\<rparr>, w')
        \<and> take 1 (newCalls (exampleWorld\<lparr>zoom_tokens := None\<rparr>) w') = [StoreCall ''zoom_tokens'' ''select''])
   \<and> (\<exists>resp w'. cronTrigger exampleEnv
            (cronRequest (''{'' @ quoted ''action'' @ '':'' @ quoted ''sync-everything'' @ ''}''))
            exampleWorld = Some (resp, w')
        \<and> length (filter (\<lambda>c. c = tokenEndpoint) (newCalls exampleWorld w')) = 1
        \<and> newCalls exampleWorld w' = [StoreCall ''zoom_tokens'' ''select'', tokenEndpoint,
                                        StoreCall ''zoom_tokens'' ''update'']
        \<and> zoom_tokens w' = Some \<lparr>access_token = JStr ''new'', refresh_token = JStr ''r1'',
                                   expires_at = 4600000\<rparr>
        \<and> zoom_users w' = zoom_users exampleWorld
        \<and> status resp = 400)"
proof -
  let ?raw = "''{'' @ quoted ''action'' @ '':'' @ quoted ''sync-everything'' @ ''}''"
  let ?req = "cronRequest ?raw"
  let ?body = "JObj [(''action'', JStr ''sync-everything'')]"
  have p: "(case JSON_parse exampleEnv (req_text ?req) of None \<Rightarrow> JObj [] | Some b \<Rightarrow> b) = ?body"
    by (simp add: cronRequest_def example_defs)
  have hyp: "req_method ?req \<noteq> ''OPTIONS'' \<and> CRON_SECRET exampleEnv = Some ''cron'' \<and> ''cron'' \<noteq> []
     \<and> req_headers ?req ''authorization'' = Some ''Bearer cron'' \<and> replaceFirst ''Bearer '' [] ''Bearer cron'' = ''cron''
     \<and> (case JSON_parse exampleEnv (req_text ?req) of None \<Rightarrow> JObj [] | Some b \<Rightarrow> b) = ?body \<and> \<not> nullish ?body
     \<and> get ?body ''action'' \<notin> set (map JStr validActions)"
    using p by (simp add: cronRequest_def exampleEnv_def nullish_def validActions_def)
  have 1: "\<exists>w'. cronTrigger exampleEnv ?req (exampleWorld\<lparr>zoom_tokens := None\<rparr>)
          = Some (\<lparr>status = 500, content = Json [(''error'', JStr ''No Zoom tokens found'')]\<rparr>, w')
        \<and> take 1 (newCalls (exampleWorld\<lparr>zoom_tokens := None\<rparr>) w') = [StoreCall ''zoom_tokens'' ''select'']"
    using cron_credential_before_action[of ?req exampleEnv "''cron''" "''Bearer cron''" ?body
        "exampleWorld\<lparr>zoom_tokens := None\<rparr>", THEN mp, OF hyp]
    by (auto simp: jsonResponse_def dropUndefined_def)
  have 2: "\<exists>resp w'. cronTrigger exampleEnv ?req exampleWorld = Some (resp, w')
        \<and> length (filter (\<lambda>c. c = tokenEndpoint) (newCalls exampleWorld w')) = 1
        \<and> newCalls exampleWorld w' = [StoreCall ''zoom_tokens'' ''select'', tokenEndpoint,
                                        StoreCall ''zoom_tokens'' ''update'']
        \<and> zoom_tokens w' = Some \<lparr>access_token = JStr ''new'', refresh_token = JStr ''r1'',
                                   expires_at = 4600000\<rparr>
        \<and> zoom_users w' = zoom_users exampleWorld
        \<and> status resp = 400"
    using cron_credential_before_action[of ?req exampleEnv "''cron''" "''Bearer cron''" ?body
        exampleWorld, THEN mp, OF hyp]
    by (auto simp: exampleWorld_def exampleEnv_def newExpiry_def jsonResponse_def)
  from 1 2 show ?thesis by blast
qed

section \<open>Pagination\<close>

lemma cursorsOf_Cons:
  "rest \<noteq> [] \<Longrightarrow> cursorsOf c (p # rest) = c # cursorsOf (snd p) rest"
  by (cases rest) (simp_all add: cursorsOf_def)

lemma cursorsOf_single: "cursorsOf c [p] = [c]"
  by (simp add: cursorsOf_def)

lemma fetchAllUsers_pages:
  "pagesFrom (zoom_api_users e ''page_size=300&status=active'' tok) c pages \<Longrightarrow>
   fetchAllUsers e tok c acc w =
     Some (Inr (acc @ concat (map fst pages)),
           w\<lparr>calls := calls w @ map (usersEndpoint ''page_size=300&status=active'') (cursorsOf c pages)\<rparr>)"
proof (induction pages arbitrary: c acc w)
  case Nil
  then show ?case by simp
next
  case (Cons p rest)
  show ?case
  proof (cases "rest = []")
    case True
    with Cons.prems show ?thesis
      by (subst fetchAllUsers.simps) (simp add: cursorsOf_single logCall_def)
  next
    case False
    with Cons.prems have api: "zoom_api_users e ''page_size=300&status=active'' tok c
        = Ok \<lparr>users = Some (fst p), next_page_token = snd p\<rparr>"
      and ne: "snd p \<noteq> []"
      and tl: "pagesFrom (zoom_api_users e ''page_size=300&status=active'' tok) (snd p) rest"
      by simp_all
    show ?thesis
      by (subst fetchAllUsers.simps)
         (simp add: api ne Cons.IH[OF tl] cursorsOf_Cons[OF False] logCall_def)
  qed
qed

section \<open>Bulk pulls only upsert\<close>

lemma onlyUpserts_refl: "onlyUpserts keys t t"
  by (simp add: onlyUpserts_def)

lemma onlyUpserts_trans:
  "onlyUpserts A t t' \<Longrightarrow> onlyUpserts B t' t'' \<Longrightarrow> A \<subseteq> C \<Longrightarrow> B \<subseteq> C \<Longrightarrow> onlyUpserts C t t''"
  unfolding onlyUpserts_def by (metis subsetD)

lemma onlyUpserts_upsertRows: "k \<in> keys \<Longrightarrow> onlyUpserts keys t (upsertRows keycol k obj t)"
  by (auto simp: onlyUpserts_def map_of_upsertRows)

lemma syncUserRow_id: "get (JObj (syncUserRow e user)) ''id'' = get user ''id''"
  by (simp add: syncUserRow_def)

lemma syncMeetingRow_id:
  "keyOf (get (JObj (syncMeetingRow e meeting)) ''meeting_id'') = Some (js_String (get meeting ''id''))"
  by (simp add: syncMeetingRow_def keyOf_def)

lemma upsertUser_users:
  "onlyUpserts {k. keyOf (get (JObj obj) ''id'') = Some k} (zoom_users w) (zoom_users (snd (upsertUser e obj w)))"
  by (auto simp: upsertUser_def logCall_def Let_def onlyUpserts_refl onlyUpserts_upsertRows split: option.splits)

lemma upsertUser_others:
  "zoom_meetings (snd (upsertUser e obj w)) = zoom_meetings w"
  "zoom_events (snd (upsertUser e obj w)) = zoom_events w"
  "zoom_tokens (snd (upsertUser e obj w)) = zoom_tokens w"
  "calls (snd (upsertUser e obj w)) = calls w @ [StoreCall ''zoom_users'' ''upsert'']"
  by (auto simp: upsertUser_def logCall_def Let_def split: option.splits)

lemma upsertMeeting_meetings:
  "onlyUpserts {k. keyOf (get (JObj obj) ''meeting_id'') = Some k} (zoom_meetings w)
     (zoom_meetings (snd (upsertMeeting e obj w)))"
  by (auto simp: upsertMeeting_def logCall_def Let_def onlyUpserts_refl onlyUpserts_upsertRows split: option.splits)

lemma upsertMeeting_others:
  "zoom_users (snd (upsertMeeting e obj w)) = zoom_users w"
  "zoom_events (snd (upsertMeeting e obj w)) = zoom_events w"
  "zoom_tokens (snd (upsertMeeting e obj w)) = zoom_tokens w"
  "calls (snd (upsertMeeting e obj w)) = calls w @ [StoreCall ''zoom_meetings'' ''upsert'']"
  by (auto simp: upsertMeeting_def logCall_def Let_def split: option.splits)

lemma upsertUsersLoop_others:
  "zoom_meetings (snd (upsertUsersLoop e us n w)) = zoom_meetings w
   \<and> zoom_events (snd (upsertUsersLoop e us n w)) = zoom_events w
   \<and> zoom_tokens (snd (upsertUsersLoop e us n w)) = zoom_tokens w
   \<and> filter (\<lambda>c. \<not> isStoreCall c) (calls (snd (upsertUsersLoop e us n w)))
       = filter (\<lambda>c. \<not> isStoreCall c) (calls w)"
  by (induction us arbitrary: n w) (simp_all add: upsertUser_others isStoreCall_def)

lemma upsertUsersLoop_result:
  "\<not> list_ex nullish us \<Longrightarrow> fst (upsertUsersLoop e us n w) = Inr (n + length us)"
  by (induction us arbitrary: n w) simp_all

lemma upsertUsersLoop_users:
  "onlyUpserts (userKeys us) (zoom_users w) (zoom_users (snd (upsertUsersLoop e us n w)))"
proof (induction us arbitrary: n w)
  case Nil
  show ?case by (simp add: onlyUpserts_refl)
next
  case (Cons u us)
  show ?case
  proof (cases "nullish u")
    case True
    then show ?thesis by (simp add: onlyUpserts_refl)
  next
    case False
    let ?w1 = "snd (upsertUser e (syncUserRow e u) w)"
    have k1: "{k. keyOf (get (JObj (syncUserRow e u)) ''id'') = Some k} \<subseteq> userKeys (u # us)"
      using syncUserRow_id[of e u] by (auto simp: userKeys_def)
    have k2: "userKeys us \<subseteq> userKeys (u # us)" by (auto simp: userKeys_def)
    have "onlyUpserts (userKeys (u # us)) (zoom_users w) (zoom_users (snd (upsertUsersLoop e us (n + 1) ?w1)))"
      by (rule onlyUpserts_trans[OF upsertUser_users Cons.IH k1 k2])
    with False show ?thesis by simp
  qed
qed

lemma upsertMeetingsLoop_others:
  "zoom_users (snd (snd (upsertMeetingsLoop e ms n w))) = zoom_users w
   \<and> zoom_events (snd (snd (upsertMeetingsLoop e ms n w))) = zoom_events w
   \<and> zoom_tokens (snd (snd (upsertMeetingsLoop e ms n w))) = zoom_tokens w"
  by (induction ms arbitrary: n w) (simp_all add: upsertMeeting_others)

lemma upsertMeetingsLoop_meetings:
  "onlyUpserts (meetingKeys ms) (zoom_meetings w) (zoom_meetings (snd (snd (upsertMeetingsLoop e ms n w))))"
proof (induction ms arbitrary: n w)
  case Nil
  show ?case by (simp add: onlyUpserts_refl)
next
  case (Cons m ms)
  show ?case
  proof (cases "nullish m")
    case True
    then show ?thesis by (simp add: onlyUpserts_refl)
  next
    case False
    let ?w1 = "snd (upsertMeeting e (syncMeetingRow e m) w)"
    have k1: "{k. keyOf (get (JObj (syncMeetingRow e m)) ''meeting_id'') = Some k} \<subseteq> meetingKeys (m # ms)"
      using syncMeetingRow_id[of e m] by (auto simp: meetingKeys_def)
    have k2: "meetingKeys ms \<subseteq> meetingKeys (m # ms)" by (auto simp: meetingKeys_def)
    have "onlyUpserts (meetingKeys (m # ms)) (zoom_meetings w)
        (zoom_meetings (snd (snd (upsertMeetingsLoop e ms (n + 1) ?w1))))"
      by (rule onlyUpserts_trans[OF upsertMeeting_meetings Cons.IH k1 k2])
    with False show ?thesis by simp
  qed
qed

lemma onlyUpserts_mono: "onlyUpserts A t t' \<Longrightarrow> A \<subseteq> B \<Longrightarrow> onlyUpserts B t t'"
  unfolding onlyUpserts_def by blast

lemma syncUsersPage_frame:
  "onlyUpserts UNIV (zoom_users w) (zoom_users (snd (syncUsersPage e tok c n w)))
   \<and> zoom_meetings (snd (syncUsersPage e tok c n w)) = zoom_meetings w
   \<and> zoom_events (snd (syncUsersPage e tok c n w)) = zoom_events w
   \<and> zoom_tokens (snd (syncUsersPage e tok c n w)) = zoom_tokens w"
proof (cases "zoom_api_users e ''page_size=300'' tok c")
  case Rejected
  then show ?thesis by (simp add: syncUsersPage_def logCall_def onlyUpserts_refl)
next
  case (NotOk x)
  then show ?thesis by (simp add: syncUsersPage_def logCall_def onlyUpserts_refl)
next
  case (Ok data)
  let ?us = "case users data of None \<Rightarrow> [] | Some us \<Rightarrow> us"
  let ?w1 = "logCall (usersEndpoint ''page_size=300'' c) w"
  have s: "snd (syncUsersPage e tok c n w) = snd (upsertUsersLoop e ?us n ?w1)"
    using Ok by (simp add: syncUsersPage_def Let_def split: prod.splits sum.splits)
  have "onlyUpserts UNIV (zoom_users ?w1) (zoom_users (snd (upsertUsersLoop e ?us n ?w1)))"
    by (rule onlyUpserts_mono[OF upsertUsersLoop_users]) simp
  then show ?thesis
    by (simp add: s upsertUsersLoop_others) (simp add: logCall_def)
qed

lemma syncUsersLoop_no_delete:
  assumes "syncUsersLoop e tok c n w = Some y"
  shows "onlyUpserts UNIV (zoom_users w) (zoom_users (snd y)) \<and> zoom_meetings (snd y) = zoom_meetings w"
  using assms
proof (induction rule: syncUsersLoop.raw_induct[rotated 1, consumes 1, case_names step])
  case (step loop e tok c n w y)
  note f = syncUsersPage_frame[of w e tok c n]
  obtain r w1 where p: "syncUsersPage e tok c n w = (r, w1)" by (cases "syncUsersPage e tok c n w")
  show ?case
  proof (cases r)
    case (Inl err)
    with step(2) p have "y = (Inl err, w1)" by simp
    with f p show ?thesis by simp
  next
    case (Inr b)
    obtain nxt n' where b: "b = (nxt, n')" by (cases b)
    show ?thesis
    proof (cases "nxt = []")
      case True
      with step(2) p Inr b have "y = (Inr n', w1)" by simp
      with f p show ?thesis by simp
    next
      case False
      with step(2) p Inr b have "loop e tok nxt n' w1 = Some y" by simp
      from step(1)[OF this] f p show ?thesis
        using onlyUpserts_trans[of UNIV "zoom_users w" "zoom_users w1" UNIV "zoom_users (snd y)" UNIV]
        by simp
    qed
  qed
qed

lemma syncUsersPage_ok:
  assumes "zoom_api_users e ''page_size=300'' tok c = Ok \<lparr>users = Some us, next_page_token = nxt\<rparr>"
  shows "syncUsersPage e tok c n w =
     (case upsertUsersLoop e us n (logCall (usersEndpoint ''page_size=300'' c) w) of
        (Inl err, w2) \<Rightarrow> (Inl err, w2)
      | (Inr n', w2) \<Rightarrow> (Inr (nxt, n'), w2))"
  using assms by (auto simp add: syncUsersPage_def Let_def split: prod.splits sum.splits)

lemma syncUsersLoop_pages:
  "pagesFrom (zoom_api_users e ''page_size=300'' tok) c pages \<Longrightarrow>
   \<exists>r w'. syncUsersLoop e tok c n w = Some (r, w')
     \<and> onlyUpserts (userKeys (concat (map fst pages))) (zoom_users w) (zoom_users w')
     \<and> (\<not> list_ex nullish (concat (map fst pages)) \<longrightarrow>
          r = Inr (n + length (concat (map fst pages)))
          \<and> filter (\<lambda>c. \<not> isStoreCall c) (calls w')
              = filter (\<lambda>c. \<not> isStoreCall c) (calls w) @ map (usersEndpoint ''page_size=300'') (cursorsOf c pages))"
proof (induction pages arbitrary: c n w)
  case Nil
  then show ?case by simp
next
  case (Cons p rest)
  obtain us nxt where p: "p = (us, nxt)" by (cases p)
  let ?w0 = "logCall (usersEndpoint ''page_size=300'' c) w"
  from Cons.prems p have api: "zoom_api_users e ''page_size=300'' tok c = Ok \<lparr>users = Some us, next_page_token = nxt\<rparr>"
    by simp
  obtain r1 w1 where l: "upsertUsersLoop e us n ?w0 = (r1, w1)" by (cases "upsertUsersLoop e us n ?w0")
  have u1: "onlyUpserts (userKeys us) (zoom_users w) (zoom_users w1)"
    using upsertUsersLoop_users[of us ?w0 e n] l by (simp add: logCall_def)
  have c1: "filter (\<lambda>c. \<not> isStoreCall c) (calls w1)
      = filter (\<lambda>c. \<not> isStoreCall c) (calls w) @ [usersEndpoint ''page_size=300'' c]"
    using upsertUsersLoop_others[of e us n ?w0] l by (simp add: logCall_def isStoreCall_def usersEndpoint_def)
  have sub1: "userKeys us \<subseteq> userKeys (concat (map fst (p # rest)))"
    by (auto simp: userKeys_def p)
  have sub2: "userKeys (concat (map fst rest)) \<subseteq> userKeys (concat (map fst (p # rest)))"
    by (auto simp: userKeys_def)
  show ?case
  proof (cases r1)
    case (Inl err)
    have "syncUsersLoop e tok c n w = Some (Inl err, w1)"
      by (subst syncUsersLoop.simps) (simp add: syncUsersPage_ok[OF api] l Inl)
    moreover have "list_ex nullish us"
      using upsertUsersLoop_result[of us e n ?w0] l Inl by auto
    ultimately show ?thesis
      using onlyUpserts_mono[OF u1 sub1] by (simp add: p)
  next
    case (Inr n')
    have n': "\<not> list_ex nullish us \<Longrightarrow> n' = n + length us"
      using upsertUsersLoop_result[of us e n ?w0] l Inr by auto
    show ?thesis
    proof (cases "rest = []")
      case True
      with Cons.prems p have "nxt = []" by simp
      then have "syncUsersLoop e tok c n w = Some (Inr n', w1)"
        by (subst syncUsersLoop.simps) (simp add: syncUsersPage_ok[OF api] l Inr)
      then show ?thesis
        using onlyUpserts_mono[OF u1 sub1] n' c1 True
        by (simp add: p cursorsOf_single)
    next
      case False
      with Cons.prems p have ne: "nxt \<noteq> []"
        and tl: "pagesFrom (zoom_api_users e ''page_size=300'' tok) nxt rest"
        by simp_all
      have step: "syncUsersLoop e tok c n w = syncUsersLoop e tok nxt n' w1"
        by (subst syncUsersLoop.simps) (simp add: syncUsersPage_ok[OF api] l Inr ne)
      from Cons.IH[OF tl, of n' w1] obtain r w' where ih:
        "syncUsersLoop e tok nxt n' w1 = Some (r, w')"
        "onlyUpserts (userKeys (concat (map fst rest))) (zoom_users w1) (zoom_users w')"
        "\<not> list_ex nullish (concat (map fst rest)) \<longrightarrow>
          r = Inr (n' + length (concat (map fst rest)))
          \<and> filter (\<lambda>c. \<not> isStoreCall c) (calls w')
              = filter (\<lambda>c. \<not> isStoreCall c) (calls w1) @ map (usersEndpoint ''page_size=300'') (cursorsOf nxt rest)"
        by blast
      have a: "onlyUpserts (userKeys (concat (map fst (p # rest)))) (zoom_users w) (zoom_users w')"
        by (rule onlyUpserts_trans[OF u1 ih(2) sub1 sub2])
      have b: "\<not> list_ex nullish (concat (map fst (p # rest))) \<longrightarrow>
          r = Inr (n + length (concat (map fst (p # rest))))
          \<and> filter (\<lambda>c. \<not> isStoreCall c) (calls w')
              = filter (\<lambda>c. \<not> isStoreCall c) (calls w) @ map (usersEndpoint ''page_size=300'') (cursorsOf c (p # rest))"
        using ih(3) n' c1 by (auto simp: p cursorsOf_Cons[OF False] list_ex_iff)
      from step ih(1) have "syncUsersLoop e tok c n w = Some (r, w')" by simp
      with a b show ?thesis by blast
    qed
  qed
qed

lemma syncMeetingsLoop_frame:
  "onlyUpserts (listedMeetingKeys e tok uids) (zoom_meetings w)
      (zoom_meetings (snd (syncMeetingsLoop e tok uids n w)))
   \<and> zoom_users (snd (syncMeetingsLoop e tok uids n w)) = zoom_users w"
proof (induction uids arbitrary: n w)
  case Nil
  show ?case by (simp add: onlyUpserts_refl)
next
  case (Cons uid rest)
  let ?w1 = "logCall (meetingsEndpoint uid) w"
  have sub: "listedMeetingKeys e tok rest \<subseteq> listedMeetingKeys e tok (uid # rest)"
    by (auto simp: listedMeetingKeys_def)
  have w1: "zoom_meetings ?w1 = zoom_meetings w" "zoom_users ?w1 = zoom_users w"
    by (simp_all add: logCall_def)
  show ?case
  proof (cases "zoom_api_meetings e tok uid")
    case Rejected
    let ?w2 = "consoleError (''Error syncing meetings for user '' @ uid) ?w1"
    have "zoom_meetings ?w2 = zoom_meetings w" "zoom_users ?w2 = zoom_users w"
      by (simp_all add: logCall_def consoleError_def)
    with Cons.IH[where n=n and w="?w2"] Rejected show ?thesis
      using onlyUpserts_mono[OF _ sub] by (simp add: Let_def)
  next
    case (NotOk msg)
    with Cons.IH[where n=n and w="?w1"] w1 show ?thesis
      using onlyUpserts_mono[OF _ sub] by (simp add: Let_def)
  next
    case (Ok data)
    let ?ms = "case data of None \<Rightarrow> [] | Some ms \<Rightarrow> ms"
    obtain x n' w2 where l: "upsertMeetingsLoop e ?ms n ?w1 = (x, n', w2)"
      by (cases "upsertMeetingsLoop e ?ms n ?w1") auto
    have k: "meetingKeys ?ms \<subseteq> listedMeetingKeys e tok (uid # rest)"
      using Ok by (cases data) (auto simp: listedMeetingKeys_def meetingKeys_def)
    have m2: "onlyUpserts (meetingKeys ?ms) (zoom_meetings w) (zoom_meetings w2)"
      using upsertMeetingsLoop_meetings[of ?ms ?w1 e n] l w1 by simp
    have u2: "zoom_users w2 = zoom_users w"
      using upsertMeetingsLoop_others[of e ?ms n ?w1] l w1 by simp
    let ?w3 = "case x of None \<Rightarrow> w2 | Some err \<Rightarrow> consoleError (''Error syncing meetings for user '' @ uid) w2"
    have w3: "zoom_meetings ?w3 = zoom_meetings w2" "zoom_users ?w3 = zoom_users w2"
      by (cases x; simp add: consoleError_def logCall_def)+
    have s: "syncMeetingsLoop e tok (uid # rest) n w = syncMeetingsLoop e tok rest n' ?w3"
      using Ok l by (cases x) (simp_all add: Let_def)
    from Cons.IH[where n=n' and w="?w3"] w3 have
      "onlyUpserts (listedMeetingKeys e tok rest) (zoom_meetings w2) (zoom_meetings (snd (syncMeetingsLoop e tok rest n' ?w3)))"
      "zoom_users (snd (syncMeetingsLoop e tok rest n' ?w3)) = zoom_users w2"
      by simp_all
    with m2 u2 show ?thesis
      unfolding s using onlyUpserts_trans[OF _ _ k sub] by simp
  qed
qed

lemma syncZoomMeetings_frame:
  "onlyUpserts (listedMeetingKeys e tok (fst (selectActiveUsers e w))) (zoom_meetings w)
      (zoom_meetings (snd (syncZoomMeetings e tok w)))
   \<and> zoom_users (snd (syncZoomMeetings e tok w)) = zoom_users w"
proof -
  obtain uids w1 where s: "selectActiveUsers e w = (uids, w1)" by (cases "selectActiveUsers e w")
  then have w1: "zoom_meetings w1 = zoom_meetings w" "zoom_users w1 = zoom_users w"
    by (auto simp: selectActiveUsers_def logCall_def Let_def split: if_splits)
  from syncMeetingsLoop_frame[of e tok uids w1 0] s w1 show ?thesis
    by (simp add: syncZoomMeetings_def)
qed

lemma webhook_user_deleted:
  assumes "verifiedDelivery e req body ev" "ev = ''user.deleted'' \<or> ev = ''user.disassociated''"
    "get (get body ''payload'') ''object'' = u" "get u ''id'' = JStr uid"
    "\<not> store_fails e (length (calls w))"
  shows "map_of (zoom_users (snd (zoomWebhook e req w))) uid = None"
proof -
  from assms(4) have n: "\<not> nullish u" by (rule get_JStr_not_nullish)
  from assms(2) have s: "startsWith ev ''user.''" by (auto simp: startsWith_def)
  from assms(2,4,5) show ?thesis
    by (simp add: zoomWebhook_user[OF assms(1) s assms(3) n] userEvent_table[OF assms(3) n] map_of_deleteRows)
qed

subsection \<open>zoom-users\<close>

lemma fetchAllUsers_tables:
  assumes "fetchAllUsers e tok c acc w = Some y"
  shows "zoom_users (snd y) = zoom_users w \<and> zoom_meetings (snd y) = zoom_meetings w"
  using assms
proof (induction rule: fetchAllUsers.raw_induct[rotated 1, consumes 1, case_names step])
  case (step loop e tok c acc w y)
  let ?w1 = "logCall (usersEndpoint ''page_size=300&status=active'' c) w"
  have w1: "zoom_users ?w1 = zoom_users w" "zoom_meetings ?w1 = zoom_meetings w"
    by (simp_all add: logCall_def)
  show ?case
  proof (cases "zoom_api_users e ''page_size=300&status=active'' tok c")
    case Rejected
    with step(2) w1 show ?thesis by (auto simp: Let_def)
  next
    case (NotOk x)
    with step(2) w1 show ?thesis by (auto simp: Let_def)
  next
    case (Ok data)
    show ?thesis
    proof (cases "users data")
      case None
      with Ok step(2) w1 show ?thesis by (auto simp: Let_def)
    next
      case (Some us)
      show ?thesis
      proof (cases "next_page_token data = []")
        case True
        with Ok Some step(2) w1 show ?thesis by (auto simp: Let_def)
      next
        case False
        with Ok Some step(2) have "loop e tok (next_page_token data) (acc @ us) ?w1 = Some y"
          by (simp add: Let_def)
        from step(1)[OF this] w1 show ?thesis by simp
      qed
    qed
  qed
qed

lemma bulkUpsertRows_only:
  "bulkUpsertRows keycol objs t = Some t' \<Longrightarrow> onlyUpserts UNIV t t'"
proof (induction objs arbitrary: t)
  case Nil
  then show ?case by (simp add: onlyUpserts_refl)
next
  case (Cons obj objs)
  then obtain k where k: "keyOf (get (JObj obj) keycol) = Some k"
    and r: "bulkUpsertRows keycol objs (upsertRows keycol k (nullForUndefined obj) t) = Some t'"
    by (auto split: option.splits)
  have "onlyUpserts UNIV t (upsertRows keycol k (nullForUndefined obj) t)"
    by (rule onlyUpserts_upsertRows) simp
  from onlyUpserts_trans[OF this Cons.IH[OF r]] show ?case by simp
qed

lemma refreshIfNeeded_tables:
  "zoom_users (snd (refreshIfNeeded e t w)) = zoom_users w
   \<and> zoom_meetings (snd (refreshIfNeeded e t w)) = zoom_meetings w"
  by (auto simp: refreshIfNeeded_def updateTokens_def logCall_def Let_def
      split: fetched.splits sum.splits)

lemma zoomUsersTry_only_upserts:
  assumes "zoomUsersTry e req w = Some (r, w')"
  shows "onlyUpserts UNIV (zoom_users w) (zoom_users w') \<and> zoom_meetings w' = zoom_meetings w"
proof (cases "verifyCronAuth e req")
  case (Some err)
  with assms show ?thesis by (simp add: zoomUsersTry_def onlyUpserts_refl)
next
  case None
  obtain td w1 where s: "selectTokens e w = (td, w1)" by (cases "selectTokens e w")
  then have w1: "zoom_users w1 = zoom_users w" "zoom_meetings w1 = zoom_meetings w"
    by (auto simp: selectTokens_def logCall_def Let_def split: if_splits)
  show ?thesis
  proof (cases td)
    case None
    with assms \<open>verifyCronAuth e req = None\<close> s w1 show ?thesis
      by (auto simp: zoomUsersTry_def onlyUpserts_refl)
  next
    case (Some tokenData)
    obtain a w2 where f: "refreshIfNeeded e tokenData w1 = (a, w2)" by (cases "refreshIfNeeded e tokenData w1")
    with refreshIfNeeded_tables[of e tokenData w1] w1
    have w2: "zoom_users w2 = zoom_users w" "zoom_meetings w2 = zoom_meetings w" by simp_all
    show ?thesis
    proof (cases a)
      case (Inl err)
      with assms \<open>verifyCronAuth e req = None\<close> s Some f w2 show ?thesis
        by (auto simp: zoomUsersTry_def onlyUpserts_refl)
    next
      case (Inr accessToken)
      show ?thesis
      proof (cases "fetchAllUsers e (js_String accessToken) [] [] w2")
        case None
        with assms \<open>verifyCronAuth e req = None\<close> s Some f Inr show ?thesis
          by (simp add: zoomUsersTry_def)
      next
        case (Some y)
        obtain b w3 where y: "y = (b, w3)" by (cases y)
        from fetchAllUsers_tables[OF Some] y w2
        have w3: "zoom_users w3 = zoom_users w" "zoom_meetings w3 = zoom_meetings w" by simp_all
        show ?thesis
        proof (cases b)
          case (Inl err)
          with assms \<open>verifyCronAuth e req = None\<close> s \<open>td = Some tokenData\<close> f Inr Some y w3 show ?thesis
            by (auto simp: zoomUsersTry_def onlyUpserts_refl)
        next
          case (Inr allUsers)
          let ?data = "map (syncUserRow e) allUsers"
          have up: "onlyUpserts UNIV (zoom_users w3) (zoom_users (snd (upsertUsersBulk e ?data w3)))
              \<and> zoom_meetings (snd (upsertUsersBulk e ?data w3)) = zoom_meetings w3"
            by (auto simp: upsertUsersBulk_def logCall_def Let_def onlyUpserts_refl
                dest: bulkUpsertRows_only split: option.splits)
          from assms \<open>verifyCronAuth e req = None\<close> s \<open>td = Some tokenData\<close> f
            \<open>a = Inr accessToken\<close> Some y Inr
          have "w' = w3 \<or> w' = snd (upsertUsersBulk e ?data w3)"
            by (auto simp: zoomUsersTry_def Let_def split: if_splits prod.splits)
          with up w3 show ?thesis by (auto simp: onlyUpserts_refl)
        qed
      qed
    qed
  qed
qed

section \<open>Deletion asymmetry\<close>

text \<open>
  C1. A bulk pull never deletes: whatever \<^const>\<open>syncZoomUsers\<close> returns, every user stored
  before is still stored, and when the provider's pages end, every row whose key is not in
  the snapshot is unchanged; \<^const>\<open>syncZoomMeetings\<close> leaves unchanged every meeting that
  the provider does not list for the active users, loses none, and does not touch the
  users; the zoom-users handler loses no user either. A verified \<open>user.deleted\<close> or
  \<open>user.disassociated\<close> webhook whose delete call succeeds removes the row of that id.
\<close>

theorem deletion_asymmetry:
  "(\<forall>r w'. syncZoomUsers e tok w = Some (r, w')
       \<longrightarrow> onlyUpserts UNIV (zoom_users w) (zoom_users w') \<and> zoom_meetings w' = zoom_meetings w)
   \<and> (\<forall>pages. pagesFrom (zoom_api_users e ''page_size=300'' tok) [] pages
       \<longrightarrow> (\<exists>r w'. syncZoomUsers e tok w = Some (r, w')
              \<and> onlyUpserts (userKeys (concat (map fst pages))) (zoom_users w) (zoom_users w')))
   \<and> (onlyUpserts (listedMeetingKeys e tok (fst (selectActiveUsers e w))) (zoom_meetings w)
          (zoom_meetings (snd (syncZoomMeetings e tok w)))
       \<and> zoom_users (snd (syncZoomMeetings e tok w)) = zoom_users w)
   \<and> (\<forall>r w'. zoomUsersTry e req w = Some (r, w')
       \<longrightarrow> onlyUpserts UNIV (zoom_users w) (zoom_users w') \<and> zoom_meetings w' = zoom_meetings w)
   \<and> (\<forall>body ev u uid. verifiedDelivery e hook body ev
         \<and> (ev = ''user.deleted'' \<or> ev = ''user.disassociated'')
         \<and> get (get body ''payload'') ''object'' = u \<and> get u ''id'' = JStr uid
         \<and> \<not> store_fails e (length (calls w))
       \<longrightarrow> map_of (zoom_users (snd (zoomWebhook e hook w))) uid = None)"
proof (intro conjI allI impI)
  fix r w' assume "syncZoomUsers e tok w = Some (r, w')"
  then have "syncUsersLoop e tok [] 0 w = Some (r, w')" by (simp add: syncZoomUsers_def)
  from syncUsersLoop_no_delete[OF this]
  show "onlyUpserts UNIV (zoom_users w) (zoom_users w')" "zoom_meetings w' = zoom_meetings w"
    by simp_all
next
  fix pages assume "pagesFrom (zoom_api_users e ''page_size=300'' tok) [] pages"
  from syncUsersLoop_pages[OF this, of 0 w]
  show "\<exists>r w'. syncZoomUsers e tok w = Some (r, w')
              \<and> onlyUpserts (userKeys (concat (map fst pages))) (zoom_users w) (zoom_users w')"
    by (auto simp: syncZoomUsers_def)
next
  show "onlyUpserts (listedMeetingKeys e tok (fst (selectActiveUsers e w))) (zoom_meetings w)
          (zoom_meetings (snd (syncZoomMeetings e tok w)))"
    "zoom_users (snd (syncZoomMeetings e tok w)) = zoom_users w"
    using syncZoomMeetings_frame[of e tok w] by simp_all
next
  fix r w' assume "zoomUsersTry e req w = Some (r, w')"
  from zoomUsersTry_only_upserts[OF this]
  show "onlyUpserts UNIV (zoom_users w) (zoom_users w')" "zoom_meetings w' = zoom_meetings w"
    by simp_all
next
  fix body ev u uid
  assume "verifiedDelivery e hook body ev
         \<and> (ev = ''user.deleted'' \<or> ev = ''user.disassociated'')
         \<and> get (get body ''payload'') ''object'' = u \<and> get u ''id'' = JStr uid
         \<and> \<not> store_fails e (length (calls w))"
  then show "map_of (zoom_users (snd (zoomWebhook e hook w))) uid = None"
    using webhook_user_deleted[of e hook body ev u uid w] by blast
qed

lemma twoPages_chain: "pagesFrom (twoPages q tok) [] [([u1], ''X''), ([u2], [])]"
  by (simp add: twoPages_def)

text \<open>In the example store \<open>u3\<close> is on record and the provider's two pages list \<open>u1\<close> and \<open>u2\<close>
  only: the pull ends and leaves the row of \<open>u3\<close> as it was; the \<open>user.deleted\<close> webhook for
  \<open>u3\<close> removes it.\<close>

theorem deletion_asymmetry_witness:
  "map_of (zoom_users exampleWorld) ''u3'' \<noteq> None
   \<and> (\<exists>r w'. syncZoomUsers exampleEnv ''old'' exampleWorld = Some (r, w')
         \<and> map_of (zoom_users w') ''u3'' = map_of (zoom_users exampleWorld) ''u3'')
   \<and> map_of (zoom_users (snd (zoomWebhook exampleEnv (signedRequest ''1000'' rawUserDeleted) exampleWorld))) ''u3''
       = None"
proof -
  note T = deletion_asymmetry[of exampleEnv "''old''" exampleWorld "cronRequest []" "signedRequest ''1000'' rawUserDeleted"]
  have c: "pagesFrom (zoom_api_users exampleEnv ''page_size=300'' ''old'') [] [([u1], ''X''), ([u2], [])]"
    using twoPages_chain by (simp add: exampleEnv_def)
  have k: "''u3'' \<notin> userKeys (concat (map fst [([u1], ''X''), ([u2], [])]))"
    by (simp add: userKeys_def u1_def u2_def keyOf_def)
  have 0: "map_of (zoom_users exampleWorld) ''u3'' \<noteq> None" by (simp add: exampleWorld_def)
  from T[THEN conjunct2, THEN conjunct1, rule_format, OF c] k
  have 1: "\<exists>r w'. syncZoomUsers exampleEnv ''old'' exampleWorld = Some (r, w')
         \<and> map_of (zoom_users w') ''u3'' = map_of (zoom_users exampleWorld) ''u3''"
    unfolding onlyUpserts_def by blast
  have 2: "map_of (zoom_users (snd (zoomWebhook exampleEnv (signedRequest ''1000'' rawUserDeleted) exampleWorld))) ''u3'' = None"
    using T[THEN conjunct2, THEN conjunct2, THEN conjunct2, THEN conjunct2, rule_format,
        of "eventBody ''user.deleted'' [(''id'', JStr ''u3'')]" "''user.deleted''"
           "JObj [(''id'', JStr ''u3'')]" "''u3''"] verified_userDeleted
    by (simp add: eventBody_def exampleEnv_def)
  from 0 1 2 show ?thesis by blast
qed

section \<open>Pagination, end to end\<close>

text \<open>
  C9. The listing loops issue one request per page, starting without cursor and continuing
  with each returned \<open>next_page_token\<close> while it is not empty; when the provider's pages end
  (\<^const>\<open>pagesFrom\<close>), the zoom-users loop returns the users of all pages in order, having
  made exactly the requests for those cursors, and \<^const>\<open>syncZoomUsers\<close> returns their
  number after the same requests. In particular, page 1 = \<open>[a]\<close> with cursor \<open>X\<close> and
  page 2 = \<open>[b]\<close> with an empty cursor give exactly \<open>[a, b]\<close>.
\<close>

theorem pagination:
  "(\<forall>pages. pagesFrom (zoom_api_users e ''page_size=300&status=active'' tok) [] pages
       \<longrightarrow> fetchAllUsers e tok [] [] w =
             Some (Inr (concat (map fst pages)),
                   w\<lparr>calls := calls w @ map (usersEndpoint ''page_size=300&status=active'') (cursorsOf [] pages)\<rparr>))
   \<and> (\<forall>a b. zoom_api_users e ''page_size=300&status=active'' tok [] = Ok \<lparr>users = Some [a], next_page_token = ''X''\<rparr>
         \<and> zoom_api_users e ''page_size=300&status=active'' tok ''X'' = Ok \<lparr>users = Some [b], next_page_token = []\<rparr>
       \<longrightarrow> (\<exists>w'. fetchAllUsers e tok [] [] w = Some (Inr [a, b], w')))
   \<and> (\<forall>pages. pagesFrom (zoom_api_users e ''page_size=300'' tok) [] pages
         \<and> \<not> list_ex nullish (concat (map fst pages))
       \<longrightarrow> (\<exists>w'. syncZoomUsers e tok w = Some (Inr (length (concat (map fst pages))), w')
              \<and> filter (\<lambda>c. \<not> isStoreCall c) (calls w')
                  = filter (\<lambda>c. \<not> isStoreCall c) (calls w)
                    @ map (usersEndpoint ''page_size=300'') (cursorsOf [] pages)))"
proof (intro conjI allI impI)
  fix pages assume "pagesFrom (zoom_api_users e ''page_size=300&status=active'' tok) [] pages"
  from fetchAllUsers_pages[OF this, of "[]" w]
  show "fetchAllUsers e tok [] [] w =
             Some (Inr (concat (map fst pages)),
                   w\<lparr>calls := calls w @ map (usersEndpoint ''page_size=300&status=active'') (cursorsOf [] pages)\<rparr>)"
    by simp
next
  fix a b
  assume "zoom_api_users e ''page_size=300&status=active'' tok [] = Ok \<lparr>users = Some [a], next_page_token = ''X''\<rparr>
         \<and> zoom_api_users e ''page_size=300&status=active'' tok ''X'' = Ok \<lparr>users = Some [b], next_page_token = []\<rparr>"
  then have "pagesFrom (zoom_api_users e ''page_size=300&status=active'' tok) [] [([a], ''X''), ([b], [])]"
    by simp
  from fetchAllUsers_pages[OF this, of "[]" w]
  show "\<exists>w'. fetchAllUsers e tok [] [] w = Some (Inr [a, b], w')" by simp
next
  fix pages
  assume "pagesFrom (zoom_api_users e ''page_size=300'' tok) [] pages
         \<and> \<not> list_ex nullish (concat (map fst pages))"
  with syncUsersLoop_pages[of e tok "[]" pages 0 w]
  show "\<exists>w'. syncZoomUsers e tok w = Some (Inr (length (concat (map fst pages))), w')
              \<and> filter (\<lambda>c. \<not> isStoreCall c) (calls w')
                  = filter (\<lambda>c. \<not> isStoreCall c) (calls w)
                    @ map (usersEndpoint ''page_size=300'') (cursorsOf [] pages)"
    by (auto simp: syncZoomUsers_def)
qed

text \<open>Scenario B on the example provider.\<close>

theorem pagination_witness:
  "(\<exists>w'. fetchAllUsers exampleEnv ''old'' [] [] exampleWorld = Some (Inr [u1, u2], w'))
   \<and> (\<exists>w'. syncZoomUsers exampleEnv ''old'' exampleWorld = Some (Inr 2, w'))"
proof -
  note T = pagination[of exampleEnv "''old''" exampleWorld]
  have a: "zoom_api_users exampleEnv ''page_size=300&status=active'' ''old'' [] = Ok \<lparr>users = Some [u1], next_page_token = ''X''\<rparr>
         \<and> zoom_api_users exampleEnv ''page_size=300&status=active'' ''old'' ''X'' = Ok \<lparr>users = Some [u2], next_page_token = []\<rparr>"
    by (simp add: exampleEnv_def twoPages_def)
  have c: "pagesFrom (zoom_api_users exampleEnv ''page_size=300'' ''old'') [] [([u1], ''X''), ([u2], [])]
      \<and> \<not> list_ex nullish (concat (map fst [([u1], ''X''), ([u2], [])]))"
    using twoPages_chain by (simp add: exampleEnv_def nullish_def u1_def u2_def)
  from T[THEN conjunct2, THEN conjunct1, rule_format, OF a]
  have 1: "\<exists>w'. fetchAllUsers exampleEnv ''old'' [] [] exampleWorld = Some (Inr [u1, u2], w')" .
  from T[THEN conjunct2, THEN conjunct2, rule_format, OF c]
  have 2: "\<exists>w'. syncZoomUsers exampleEnv ''old'' exampleWorld = Some (Inr 2, w')" by auto
  from 1 2 show ?thesis by blast
qed

end
